theory Spec2Isabelle
  imports Main "HOL-Library.AList" "HOL-Library.Char_ord" "HOL-Library.List_Lexorder"
begin

section \<open>Python strings\<close>

text \<open>
  A Python \<open>str\<close> is a \<open>string\<close> (a list of characters). The operations below are the
  ones \<open>sdkConfigurator.py\<close> calls: \<open>s.endswith(suf)\<close>, \<open>sub in s\<close>,
  \<open>s.replace(old, new)\<close>, \<open>s.split(sep)\<close>, \<open>s.strip()\<close> and \<open>Path(s).name\<close>.
\<close>

definition endswith :: "string \<Rightarrow> string \<Rightarrow> bool" where
  "endswith s suf \<longleftrightarrow> length suf \<le> length s \<and> drop (length s - length suf) s = suf"

definition startswith :: "string \<Rightarrow> string \<Rightarrow> bool" where
  "startswith s pre \<longleftrightarrow> take (length pre) s = pre"

text \<open>\<open>sub in s\<close>: the plain substring test, comparing characters for equality.\<close>

fun py_in :: "string \<Rightarrow> string \<Rightarrow> bool" where
  "py_in sub [] = (sub = [])"
| "py_in sub (c # cs) = (startswith (c # cs) sub \<or> py_in sub cs)"

text \<open>
  \<open>s.replace(old, new)\<close>: every non-overlapping occurrence of \<open>old\<close>, found from the
  left, is replaced. For an empty \<open>old\<close> Python puts \<open>new\<close> before every character and
  at the end.
\<close>

function replace :: "string \<Rightarrow> string \<Rightarrow> string \<Rightarrow> string" where
  "replace old new s =
     (if old = [] then new @ concat (map (\<lambda>c. c # new) s)
      else if s = [] then []
      else if startswith s old then new @ replace old new (drop (length old) s)
      else hd s # replace old new (tl s))"
  by pat_completeness auto
termination
  by (relation "measure (\<lambda>(old, new, s). length s)") auto

declare replace.simps [simp del]

text \<open>\<open>s.split(sep)\<close> for a separator of one character.\<close>

fun split_on :: "char \<Rightarrow> string \<Rightarrow> string list" where
  "split_on sep [] = [[]]"
| "split_on sep (c # cs) =
     (if c = sep then [] # split_on sep cs
      else (case split_on sep cs of
              [] \<Rightarrow> [[c]]
            | w # ws \<Rightarrow> (c # w) # ws))"

text \<open>
  \<open>Path(s).name\<close> (pathlib, POSIX flavour): the path is cut at \<open>/\<close>, empty components
  and \<open>.\<close> components are dropped, and the name is the last component left, or the empty
  string when none is left.
\<close>

definition path_parts :: "string \<Rightarrow> string list" where
  "path_parts s = filter (\<lambda>p. p \<noteq> [] \<and> p \<noteq> ''.'') (split_on CHR ''/'' s)"

definition path_name :: "string \<Rightarrow> string" where
  "path_name s = (case path_parts s of [] \<Rightarrow> [] | p # ps \<Rightarrow> last (p # ps))"

text \<open>
  The last path segment in the words of the specification: the text after the last
  path separator.
\<close>

definition last_segment :: "string \<Rightarrow> string" where
  "last_segment s = last (split_on CHR ''/'' s)"

text \<open>
  \<open>s.strip()\<close>: it removes the characters for which \<open>str.isspace\<close> holds. A
  \<open>char\<close> is a code point below 256, and these are all the white space characters
  among them: the space, the controls 0x09 to 0x0D and 0x1C to 0x1F, the next-line
  control 0x85 and the no-break space 0xA0.
\<close>

definition is_space :: "char \<Rightarrow> bool" where
  "is_space c \<longleftrightarrow> c \<in> set [CHR '' '', CHR 0x09, CHR 0x0A, CHR 0x0B, CHR 0x0C, CHR 0x0D,
                             CHR 0x1C, CHR 0x1D, CHR 0x1E, CHR 0x1F, CHR 0x85, CHR 0xA0]"

definition strip :: "string \<Rightarrow> string" where
  "strip s = rev (dropWhile is_space (rev (dropWhile is_space s)))"


section \<open>Python values\<close>

text \<open>
  What \<open>yaml.safe_load\<close>, \<open>response.json()\<close> and \<open>json.load\<close> return, and what
  \<open>json.dump\<close> accepts: the dynamically typed values of a parsed document. The keys of
  a mapping are strings; a mapping keeps its insertion order, so it is an association
  list, written with \<open>AList.update\<close> (an existing key keeps its place, a new key goes
  to the end).
\<close>

datatype pyval =
    PNone
  | PBool bool
  | PInt int
  | PStr string
  | PList "pyval list"
  | PDict "(string \<times> pyval) list"

datatype exn = AttributeError | TypeError | KeyError | ValueError | FetchError

text \<open>Truth value of a Python object, as \<open>if x:\<close> and \<open>not x\<close> take it.\<close>

fun truthy :: "pyval \<Rightarrow> bool" where
  "truthy PNone = False"
| "truthy (PBool b) = b"
| "truthy (PInt i) = (i \<noteq> 0)"
| "truthy (PStr s) = (s \<noteq> [])"
| "truthy (PList xs) = (xs \<noteq> [])"
| "truthy (PDict kvs) = (kvs \<noteq> [])"

text \<open>\<open>d.get(k, default)\<close>: only a mapping has the method.\<close>

fun py_get :: "pyval \<Rightarrow> string \<Rightarrow> pyval \<Rightarrow> exn + pyval" where
  "py_get (PDict kvs) k dflt = Inr (case map_of kvs k of None \<Rightarrow> dflt | Some v \<Rightarrow> v)"
| "py_get _ k dflt = Inl AttributeError"

text \<open>\<open>d[k]\<close> with a string key.\<close>

fun py_getitem :: "pyval \<Rightarrow> string \<Rightarrow> exn + pyval" where
  "py_getitem (PDict kvs) k = (case map_of kvs k of None \<Rightarrow> Inl KeyError | Some v \<Rightarrow> Inr v)"
| "py_getitem _ k = Inl TypeError"

text \<open>\<open>for x in v\<close>: the elements of a list, the keys of a mapping, the characters of a string.\<close>

fun py_iter :: "pyval \<Rightarrow> exn + pyval list" where
  "py_iter (PList xs) = Inr xs"
| "py_iter (PDict kvs) = Inr (map (\<lambda>kv. PStr (fst kv)) kvs)"
| "py_iter (PStr s) = Inr (map (\<lambda>c. PStr [c]) s)"
| "py_iter _ = Inl TypeError"

text \<open>\<open>k in v\<close> for a string \<open>k\<close>.\<close>

fun py_contains :: "pyval \<Rightarrow> string \<Rightarrow> exn + bool" where
  "py_contains (PDict kvs) k = Inr (k \<in> set (map fst kvs))"
| "py_contains (PList xs) k = Inr (PStr k \<in> set xs)"
| "py_contains (PStr s) k = Inr (py_in k s)"
| "py_contains _ k = Inl TypeError"


section \<open>ManifestExplorer\<close>

text \<open>
  The remote side: what \<open>requests.get\<close> gives for the manifest URL (the parsed
  document, or the failure of the request, of \<open>raise_for_status\<close> or of the parser) and
  for a listing URL (a failed request, or a status code with the body that
  \<open>response.json()\<close> parses; \<open>None\<close> when it cannot).
\<close>

datatype http_outcome = RequestFailed | Response nat "pyval option"

record world =
  document :: "string \<Rightarrow> exn + pyval"
  listing :: "string \<Rightarrow> http_outcome"

record content_item =
  name :: string
  filename :: string
  path :: string

datatype kind = Unknown | File | Directory

record import_info =
  info_path :: string
  info_type :: kind
  info_contents :: "content_item list"
  info_filename :: "string option"

record explorer =
  manifest_url :: string
  manifest :: pyval
  import_structure :: "(string \<times> import_info) list"

definition default_manifest_url :: string where
  "default_manifest_url =
     ''https://raw.githubusercontent.com/nxp-mcuxpresso/mcuxsdk-manifests/main/west.yml''"

definition new_explorer :: explorer where
  "new_explorer = \<lparr>manifest_url = default_manifest_url, manifest = PNone, import_structure = []\<rparr>"

definition fetch_manifest :: "world \<Rightarrow> explorer \<Rightarrow> exn + explorer" where
  "fetch_manifest w ex =
     (case document w (manifest_url ex) of
        Inl e \<Rightarrow> Inl e
      | Inr d \<Rightarrow> Inr (ex\<lparr>manifest := d\<rparr>))"

subsection \<open>Directory listings\<close>

definition api_url :: "string \<Rightarrow> string \<Rightarrow> string" where
  "api_url url dir_path =
     replace ''/west.yml'' (''/'' @ dir_path)
       (replace ''/main/'' ''/contents/''
          (replace ''raw.githubusercontent.com'' ''api.github.com/repos'' url))"

text \<open>
  The loop \<open>for f in files\<close>: \<open>f['name']\<close> raises unless \<open>f\<close> is a mapping with that
  key, and \<open>.endswith\<close> raises unless the name is a string.
\<close>

definition file_name :: "pyval \<Rightarrow> exn + string" where
  "file_name f =
     (case py_getitem f ''name'' of
        Inl e \<Rightarrow> Inl e
      | Inr (PStr n) \<Rightarrow> Inr n
      | Inr _ \<Rightarrow> Inl AttributeError)"

definition mk_item :: "string \<Rightarrow> string \<Rightarrow> content_item" where
  "mk_item dir_path n =
     \<lparr>name = replace ''.yml'' [] n, filename = n, path = dir_path @ n\<rparr>"

fun collect_files :: "string \<Rightarrow> pyval list \<Rightarrow> content_item list \<Rightarrow> exn + content_item list" where
  "collect_files dir_path [] contents = Inr contents"
| "collect_files dir_path (f # fs) contents =
     (case file_name f of
        Inl e \<Rightarrow> Inl e
      | Inr n \<Rightarrow>
          if endswith n ''.yml''
          then collect_files dir_path fs (contents @ [mk_item dir_path n])
          else collect_files dir_path fs contents)"

text \<open>
  The body of the \<open>try\<close> block: \<open>Inl\<close> when it raises, \<open>Inr None\<close> when it ends
  without returning (a status other than 200), \<open>Inr (Some contents)\<close> when it returns.
\<close>

definition try_fetch :: "world \<Rightarrow> string \<Rightarrow> string \<Rightarrow> exn + content_item list option" where
  "try_fetch w url dir_path =
     (case listing w url of
        RequestFailed \<Rightarrow> Inl FetchError
      | Response code body \<Rightarrow>
          if code = 200 then
            (case body of
               None \<Rightarrow> Inl ValueError
             | Some files \<Rightarrow>
                 (case py_iter files of
                    Inl e \<Rightarrow> Inl e
                  | Inr fs \<Rightarrow>
                      (case collect_files dir_path fs [] of
                         Inl e \<Rightarrow> Inl e
                       | Inr contents \<Rightarrow> Inr (Some contents))))
          else Inr None)"

definition fetch_directory_contents :: "world \<Rightarrow> explorer \<Rightarrow> string \<Rightarrow> content_item list" where
  "fetch_directory_contents w ex dir_path =
     (case try_fetch w (api_url (manifest_url ex) dir_path) dir_path of
        Inr (Some contents) \<Rightarrow> contents
      | _ \<Rightarrow> [])"

subsection \<open>Classifying one import path\<close>

definition analyze_import_path :: "world \<Rightarrow> explorer \<Rightarrow> string \<Rightarrow> import_info" where
  "analyze_import_path w ex p =
     (let info = \<lparr>info_path = p, info_type = Unknown, info_contents = [], info_filename = None\<rparr>
      in if endswith p ''.yml''
         then info\<lparr>info_type := File, info_filename := Some (path_name p)\<rparr>
         else if endswith p ''/''
         then info\<lparr>info_type := Directory, info_contents := fetch_directory_contents w ex p\<rparr>
         else (let dir_contents = fetch_directory_contents w ex (p @ ''/'')
               in if dir_contents \<noteq> []
                  then info\<lparr>info_type := Directory, info_contents := dir_contents,
                             info_path := p @ ''/''\<rparr>
                  else info\<lparr>info_type := File, info_filename := Some (path_name p)\<rparr>))"

subsection \<open>The structure analyzer\<close>

definition self_import :: "pyval \<Rightarrow> exn + pyval" where
  "self_import m =
     (case py_get m ''manifest'' (PDict []) of
        Inl e \<Rightarrow> Inl e
      | Inr a \<Rightarrow>
          (case py_get a ''self'' (PDict []) of
             Inl e \<Rightarrow> Inl e
           | Inr b \<Rightarrow> py_get b ''import'' (PList [])))"

definition analyze_step ::
  "world \<Rightarrow> explorer \<Rightarrow> pyval \<Rightarrow> (string \<times> import_info) list \<Rightarrow> (string \<times> import_info) list" where
  "analyze_step w ex import_path structure =
     (case import_path of
        PStr s \<Rightarrow> AList.update s (analyze_import_path w ex s) structure
      | _ \<Rightarrow> structure)"

text \<open>\<open>if not self.manifest: self.fetch_manifest()\<close>\<close>

definition ensure_manifest :: "world \<Rightarrow> explorer \<Rightarrow> exn + explorer" where
  "ensure_manifest w ex = (if \<not> truthy (manifest ex) then fetch_manifest w ex else Inr ex)"

definition analyze_imports ::
  "world \<Rightarrow> explorer \<Rightarrow> exn + explorer \<times> (string \<times> import_info) list" where
  "analyze_imports w ex =
     (case ensure_manifest w ex of
        Inl e \<Rightarrow> Inl e
      | Inr ex1 \<Rightarrow>
          (case self_import (manifest ex1) of
             Inl e \<Rightarrow> Inl e
           | Inr imports \<Rightarrow>
               (case py_iter imports of
                  Inl e \<Rightarrow> Inl e
                | Inr items \<Rightarrow>
                    (let structure = fold (analyze_step w ex1) items []
                     in Inr (ex1\<lparr>import_structure := structure\<rparr>, structure)))))"

subsection \<open>Passthrough sections\<close>

record nxp_config =
  cfg_remotes :: pyval
  cfg_defaults :: pyval
  cfg_group_filter :: pyval
  cfg_self :: pyval

definition manifest_section :: "pyval \<Rightarrow> string \<Rightarrow> pyval \<Rightarrow> exn + pyval" where
  "manifest_section m k dflt =
     (case py_get m ''manifest'' (PDict []) of
        Inl e \<Rightarrow> Inl e
      | Inr a \<Rightarrow> py_get a k dflt)"

definition get_all_configuration :: "explorer \<Rightarrow> exn + nxp_config" where
  "get_all_configuration ex =
     (case manifest_section (manifest ex) ''remotes'' (PList []) of
        Inl e \<Rightarrow> Inl e
      | Inr r \<Rightarrow>
     (case manifest_section (manifest ex) ''defaults'' (PDict []) of
        Inl e \<Rightarrow> Inl e
      | Inr d \<Rightarrow>
     (case manifest_section (manifest ex) ''group-filter'' (PList []) of
        Inl e \<Rightarrow> Inl e
      | Inr gf \<Rightarrow>
     (case manifest_section (manifest ex) ''self'' (PDict []) of
        Inl e \<Rightarrow> Inl e
      | Inr s \<Rightarrow>
          Inr \<lparr>cfg_remotes = r, cfg_defaults = d, cfg_group_filter = gf, cfg_self = s\<rparr>))))"


section \<open>ManifestConfig\<close>

text \<open>
  The dataclass. Python does not check the annotated types, so a field holds whatever
  value it was given; \<open>__post_init__\<close> replaces a missing creation time by the
  current time, which is a parameter here (\<open>datetime.now().isoformat()\<close>).
\<close>

record manifest_config =
  config_imports :: pyval
  group_filters :: pyval
  use_nxp_remotes :: pyval
  use_nxp_defaults :: pyval
  use_nxp_west_commands :: pyval
  created_at :: pyval
  nxp_manifest_revision :: pyval
  nxp_manifest_url :: pyval

definition field_names :: "string list" where
  "field_names = [''imports'', ''group_filters'', ''use_nxp_remotes'', ''use_nxp_defaults'',
     ''use_nxp_west_commands'', ''created_at'', ''nxp_manifest_revision'', ''nxp_manifest_url'']"

definition post_init :: "string \<Rightarrow> manifest_config \<Rightarrow> manifest_config" where
  "post_init now c = (if created_at c = PNone then c\<lparr>created_at := PStr now\<rparr> else c)"

definition kwarg :: "(string \<times> pyval) list \<Rightarrow> string \<Rightarrow> pyval \<Rightarrow> pyval" where
  "kwarg kwargs k dflt = (case map_of kwargs k of None \<Rightarrow> dflt | Some v \<Rightarrow> v)"

text \<open>\<open>ManifestConfig(**kwargs)\<close>: a keyword that is no field raises \<open>TypeError\<close>.\<close>

definition ManifestConfig :: "string \<Rightarrow> (string \<times> pyval) list \<Rightarrow> exn + manifest_config" where
  "ManifestConfig now kwargs =
     (if list_all (\<lambda>k. k \<in> set field_names) (map fst kwargs)
      then Inr (post_init now
        \<lparr>config_imports = kwarg kwargs ''imports'' (PDict []),
         group_filters = kwarg kwargs ''group_filters'' (PList []),
         use_nxp_remotes = kwarg kwargs ''use_nxp_remotes'' (PBool True),
         use_nxp_defaults = kwarg kwargs ''use_nxp_defaults'' (PBool True),
         use_nxp_west_commands = kwarg kwargs ''use_nxp_west_commands'' (PBool True),
         created_at = kwarg kwargs ''created_at'' PNone,
         nxp_manifest_revision = kwarg kwargs ''nxp_manifest_revision'' (PStr ''main''),
         nxp_manifest_url = kwarg kwargs ''nxp_manifest_url'' PNone\<rparr>)
      else Inl TypeError)"

definition default_config :: "string \<Rightarrow> manifest_config" where
  "default_config now =
     \<lparr>config_imports = PDict [], group_filters = PList [], use_nxp_remotes = PBool True,
      use_nxp_defaults = PBool True, use_nxp_west_commands = PBool True,
      created_at = PStr now, nxp_manifest_revision = PStr ''main'', nxp_manifest_url = PNone\<rparr>"


section \<open>ManifestConfiguratorGUI\<close>

text \<open>
  The state the resolution logic reads and writes: the explorer, the configuration,
  the Tk variables of the import entries and of the settings tab. Widgets are not
  modelled.
\<close>

datatype tkvar = BooleanVar bool | StringVar string

record gui =
  explorer :: explorer
  config :: manifest_config
  import_vars :: "(string \<times> tkvar) list"
  directory_selections :: "(string \<times> (string \<times> bool) list) list"
  use_remotes_var :: bool
  use_defaults_var :: bool
  use_commands_var :: bool
  group_filters_text :: string

definition new_gui :: "string \<Rightarrow> gui" where
  "new_gui now =
     \<lparr>explorer = new_explorer, config = default_config now, import_vars = [],
      directory_selections = [], use_remotes_var = True, use_defaults_var = True,
      use_commands_var = True, group_filters_text = []\<rparr>"

subsection \<open>Presenting the imports\<close>

definition guess_default :: "string \<Rightarrow> bool" where
  "guess_default p =
     (if py_in ''base.yml'' p \<or> py_in ''internal.yml'' p then True
      else if py_in ''rtos'' p then True
      else if py_in ''devices/'' p \<and> endswith p ''.yml'' then False
      else if py_in ''middleware/'' p \<and> endswith p ''/'' then True
      else False)"

definition create_directory_options :: "gui \<Rightarrow> string \<Rightarrow> content_item list \<Rightarrow> gui" where
  "create_directory_options g dir_path contents =
     (let file_vars = fold (\<lambda>item fv. AList.update (path item) False fv)
                           (sort_key name contents) []
      in g\<lparr>import_vars := AList.update dir_path (StringVar ''all'') (import_vars g),
            directory_selections := AList.update dir_path file_vars (directory_selections g)\<rparr>)"

definition section_item :: "string \<times> import_info \<Rightarrow> gui \<Rightarrow> gui" where
  "section_item item g =
     (let info = snd item; display_path = info_path info
      in if info_type info = File
         then g\<lparr>import_vars :=
                  AList.update display_path (BooleanVar (guess_default display_path)) (import_vars g)\<rparr>
         else if info_type info = Directory
         then (if info_contents info \<noteq> []
               then create_directory_options g display_path (info_contents info)
               else g\<lparr>import_vars := AList.update display_path (BooleanVar False) (import_vars g)\<rparr>)
         else g)"

definition create_category_section :: "gui \<Rightarrow> (string \<times> import_info) list \<Rightarrow> gui" where
  "create_category_section g items = fold section_item items g"

definition category_of :: "string \<Rightarrow> string" where
  "category_of norm_path =
     (if py_in ''base.yml'' norm_path \<or> py_in ''internal.yml'' norm_path then ''Base Files''
      else if py_in ''devices'' norm_path then ''Devices''
      else if py_in ''middleware'' norm_path then ''Middleware''
      else if py_in ''rtos'' norm_path then ''RTOS''
      else ''Other'')"

definition category_names :: "string list" where
  "category_names = [''Base Files'', ''Devices'', ''Middleware'', ''RTOS'', ''Other'']"

definition append_to ::
  "string \<Rightarrow> 'a \<Rightarrow> (string \<times> 'a list) list \<Rightarrow> (string \<times> 'a list) list" where
  "append_to c x cats = map (\<lambda>(k, l). if k = c then (k, l @ [x]) else (k, l)) cats"

definition categorize ::
  "(string \<times> import_info) list \<Rightarrow> (string \<times> (string \<times> import_info) list) list" where
  "categorize structure =
     fold (\<lambda>(p, info) cats.
             append_to (category_of (info_path info)) (info_path info, info) cats)
          structure (map (\<lambda>c. (c, [])) category_names)"

definition populate_imports :: "gui \<Rightarrow> (string \<times> import_info) list \<Rightarrow> gui" where
  "populate_imports g structure =
     fold (\<lambda>(category, items) g'. if items \<noteq> [] then create_category_section g' items else g')
          (categorize structure)
          (g\<lparr>import_vars := [], directory_selections := []\<rparr>)"

subsection \<open>Building the configuration from the selections\<close>

definition selected_files :: "(string \<times> (string \<times> bool) list) list \<Rightarrow> string \<Rightarrow> string list" where
  "selected_files ds p =
     (case map_of ds p of
        None \<Rightarrow> []
      | Some file_vars \<Rightarrow> map fst (filter snd file_vars))"

definition config_import ::
  "(string \<times> (string \<times> bool) list) list \<Rightarrow> string \<times> tkvar \<Rightarrow>
     (string \<times> pyval) list \<Rightarrow> (string \<times> pyval) list" where
  "config_import ds pv imps =
     (case snd pv of
        BooleanVar b \<Rightarrow> AList.update (fst pv) (PBool b) imps
      | StringVar mode \<Rightarrow>
          if mode = ''all'' then AList.update (fst pv) (PBool True) imps
          else if mode = ''none'' then AList.update (fst pv) (PBool False) imps
          else if mode = ''selective''
          then AList.update (fst pv) (PList (map PStr (selected_files ds (fst pv)))) imps
          else imps)"

definition parse_group_filters :: "string \<Rightarrow> string list" where
  "parse_group_filters text =
     map strip (filter (\<lambda>f. strip f \<noteq> []) (split_on CHR 0x0A (strip text)))"

definition build_config_from_ui :: "string \<Rightarrow> gui \<Rightarrow> gui" where
  "build_config_from_ui now g =
     (let c0 = default_config now;
          c1 = c0\<lparr>use_nxp_remotes := PBool (use_remotes_var g),
                  use_nxp_defaults := PBool (use_defaults_var g),
                  use_nxp_west_commands := PBool (use_commands_var g)\<rparr>;
          c2 = (if strip (group_filters_text g) \<noteq> []
                then c1\<lparr>group_filters := PList (map PStr (parse_group_filters (group_filters_text g)))\<rparr>
                else c1);
          c3 = c2\<lparr>config_imports := PDict (fold (config_import (directory_selections g)) (import_vars g) [])\<rparr>
      in g\<lparr>config := c3\<lparr>nxp_manifest_url := PStr (manifest_url (explorer g))\<rparr>\<rparr>)"

subsection \<open>Generating the output document\<close>

definition add_import :: "string \<times> pyval \<Rightarrow> pyval list \<Rightarrow> pyval list" where
  "add_import pv acc =
     (case snd pv of
        PBool b \<Rightarrow> if b then acc @ [PStr (fst pv)] else acc
      | PList vs \<Rightarrow> acc @ vs
      | _ \<Rightarrow> acc)"

definition build_imports :: "pyval \<Rightarrow> exn + pyval list" where
  "build_imports imps =
     (case imps of
        PDict kvs \<Rightarrow> Inr (fold add_import kvs [])
      | _ \<Rightarrow> Inl AttributeError)"

definition self_block :: "manifest_config \<Rightarrow> nxp_config \<Rightarrow> exn + (string \<times> pyval) list" where
  "self_block c nxp =
     (case py_contains (cfg_self nxp) ''path'' of
        Inl e \<Rightarrow> Inl e
      | Inr has_path \<Rightarrow>
     (case (if has_path
            then (case py_getitem (cfg_self nxp) ''path'' of
                    Inl e \<Rightarrow> Inl e
                  | Inr v \<Rightarrow> Inr [(''path'', v)])
            else Inr []) of
        Inl e \<Rightarrow> Inl e
      | Inr s1 \<Rightarrow>
          if truthy (use_nxp_west_commands c)
          then (case py_get (cfg_self nxp) ''west-commands'' PNone of
                  Inl e \<Rightarrow> Inl e
                | Inr wc \<Rightarrow>
                    Inr (if truthy wc then AList.update ''west-commands'' wc s1 else s1))
          else Inr s1))"

definition generate_manifest_dict :: "gui \<Rightarrow> exn + pyval" where
  "generate_manifest_dict g =
     (if truthy (manifest (explorer g)) then
        (case get_all_configuration (explorer g) of
           Inl e \<Rightarrow> Inl e
         | Inr nxp \<Rightarrow>
        (let c = config g;
             m1 = (if truthy (use_nxp_remotes c) \<and> truthy (cfg_remotes nxp)
                   then [(''remotes'', cfg_remotes nxp)] else []);
             m2 = (if truthy (use_nxp_defaults c) \<and> truthy (cfg_defaults nxp)
                   then AList.update ''defaults'' (cfg_defaults nxp) m1 else m1);
             m3 = (if truthy (group_filters c)
                   then AList.update ''group-filter'' (group_filters c) m2 else m2)
         in (case self_block c nxp of
               Inl e \<Rightarrow> Inl e
             | Inr s \<Rightarrow>
            (let m4 = AList.update ''self'' (PDict s) m3
             in (case build_imports (config_imports c) of
                   Inl e \<Rightarrow> Inl e
                 | Inr imps \<Rightarrow>
                (case py_get (case map_of m4 ''defaults'' of None \<Rightarrow> PDict [] | Some d \<Rightarrow> d)
                             ''remote'' (PStr ''nxp-mcuxpresso'') of
                   Inl e \<Rightarrow> Inl e
                 | Inr remote \<Rightarrow>
                     Inr (PDict [(''manifest'',
                       PDict (AList.update ''projects''
                         (PList [PDict [(''name'', PStr ''mcuxsdk-manifests''),
                                        (''remote'', remote),
                                        (''revision'', PStr ''main''),
                                        (''import'', PList imps)]]) m4))])))))))
      else Inr (PDict [(''manifest'', PDict [])]))"

text \<open>
  The flat import list of the current selections: \<open>build_config_from_ui\<close> followed by
  the import loop of \<open>generate_manifest_dict\<close>.
\<close>

definition flatten ::
  "(string \<times> tkvar) list \<Rightarrow> (string \<times> (string \<times> bool) list) list \<Rightarrow> pyval list" where
  "flatten vars ds = fold add_import (fold (config_import ds) vars []) []"

subsection \<open>Saving and loading the configuration\<close>

definition config_dict :: "manifest_config \<Rightarrow> pyval" where
  "config_dict c =
     PDict [(''imports'', config_imports c),
            (''group_filters'', group_filters c),
            (''use_nxp_remotes'', use_nxp_remotes c),
            (''use_nxp_defaults'', use_nxp_defaults c),
            (''use_nxp_west_commands'', use_nxp_west_commands c),
            (''created_at'', created_at c),
            (''nxp_manifest_revision'', nxp_manifest_revision c),
            (''nxp_manifest_url'', nxp_manifest_url c)]"

text \<open>
  \<open>save_config\<close> writes \<open>config_dict\<close> of the configuration built from the selections
  with \<open>json.dump\<close>; \<open>load_config\<close> reads a document with \<open>json.load\<close> and passes it
  to the dataclass. Both library calls are taken to be exact on \<open>pyval\<close>: the value
  read is the value written.
\<close>

definition save_config :: "string \<Rightarrow> gui \<Rightarrow> gui \<times> pyval" where
  "save_config now g = (let g' = build_config_from_ui now g in (g', config_dict (config g')))"

definition config_of_data :: "string \<Rightarrow> pyval \<Rightarrow> exn + manifest_config" where
  "config_of_data now data =
     (case data of
        PDict kwargs \<Rightarrow> ManifestConfig now kwargs
      | _ \<Rightarrow> Inl TypeError)"

definition load_config :: "string \<Rightarrow> gui \<Rightarrow> pyval \<Rightarrow> gui" where
  "load_config now g data =
     (case config_of_data now data of
        Inl e \<Rightarrow> g
      | Inr c \<Rightarrow> g\<lparr>config := c\<rparr>)"


section \<open>Notions used in the statements\<close>

text \<open>
  The entries of a list without repetition, each at the place of its first occurrence:
  the order in which a Python dict lists keys that were assigned in the order \<open>xs\<close>.
\<close>

definition first_occurrences :: "'a list \<Rightarrow> 'a list" where
  "first_occurrences xs = rev (remdups (rev xs))"

text \<open>The string entries of a parsed list, in order.\<close>

fun string_entries :: "pyval list \<Rightarrow> string list" where
  "string_entries [] = []"
| "string_entries (PStr s # xs) = s # string_entries xs"
| "string_entries (_ # xs) = string_entries xs"


section \<open>Example inputs\<close>

text \<open>
  An explorer that holds a manifest whose self-import list has two entries that are
  no strings and one string twice.
\<close>

definition mixed_imports :: "pyval list" where
  "mixed_imports = [PStr ''rtos.yml'', PInt 3, PStr ''base.yml'', PStr ''rtos.yml'', PBool True]"

definition mixed_explorer :: explorer where
  "mixed_explorer =
     new_explorer\<lparr>manifest :=
       PDict [(''manifest'', PDict [(''self'', PDict [(''import'', PList mixed_imports)])])]\<rparr>"

text \<open>A remote side where every request fails, and a fresh application state.\<close>

definition offline :: world where
  "offline = \<lparr>document = (\<lambda>u. Inl FetchError), listing = (\<lambda>u. RequestFailed)\<rparr>"

definition fresh_gui :: gui where
  "fresh_gui = new_gui ''2026-01-01T00:00:00''"

text \<open>A remote side that answers every listing request with status 404.\<close>

definition not_found :: world where
  "not_found = \<lparr>document = (\<lambda>u. Inl FetchError), listing = (\<lambda>u. Response 404 None)\<rparr>"

text \<open>
  A remote side that answers every listing request with status 200 and three entries,
  two of them manifest files.
\<close>

definition devices_listing :: "pyval list" where
  "devices_listing =
     [PDict [(''name'', PStr ''mcx.yml''), (''type'', PStr ''file'')],
      PDict [(''name'', PStr ''lpc.yml''), (''type'', PStr ''file'')],
      PDict [(''name'', PStr ''README.md''), (''type'', PStr ''file'')]]"

definition devices_world :: world where
  "devices_world =
     \<lparr>document = (\<lambda>u. Inl FetchError),
      listing = (\<lambda>u. Response 200 (Some (PList devices_listing)))\<rparr>"

text \<open>
  The selections of the scenario in the specification: one file included, a directory
  in mode selective with one of its two children chosen, another file included; and
  selections that exclude everything.
\<close>

definition scenario_vars :: "(string \<times> tkvar) list" where
  "scenario_vars = [(''base.yml'', BooleanVar True), (''devices/'', StringVar ''selective''),
                    (''middleware/foo.yml'', BooleanVar True)]"

definition scenario_selections :: "(string \<times> (string \<times> bool) list) list" where
  "scenario_selections = [(''devices/'', [(''devices/lpc.yml'', False), (''devices/mcx.yml'', True)])]"

definition excluded_vars :: "(string \<times> tkvar) list" where
  "excluded_vars = [(''base.yml'', BooleanVar False), (''devices/'', StringVar ''none'')]"

text \<open>
  An explorer whose manifest declares \<open>rtos.yml\<close> before \<open>base.yml\<close>, and the
  structure the analyzer returns for it.
\<close>

definition reversed_imports :: "pyval list" where
  "reversed_imports = [PStr ''rtos.yml'', PStr ''base.yml'']"

definition reversed_explorer :: explorer where
  "reversed_explorer =
     new_explorer\<lparr>manifest :=
       PDict [(''manifest'', PDict [(''self'', PDict [(''import'', PList reversed_imports)])])]\<rparr>"

definition reversed_structure :: "(string \<times> import_info) list" where
  "reversed_structure =
     [(''rtos.yml'', \<lparr>info_path = ''rtos.yml'', info_type = File, info_contents = [],
                      info_filename = Some ''rtos.yml''\<rparr>),
      (''base.yml'', \<lparr>info_path = ''base.yml'', info_type = File, info_contents = [],
                      info_filename = Some ''base.yml''\<rparr>)]"

text \<open>
  The directory entry that the analyzer returns for \<open>devices/\<close> when the listing
  holds the two manifest files of \<open>devices_world\<close>.
\<close>

definition devices_entry :: import_info where
  "devices_entry =
     \<lparr>info_path = ''devices/'', info_type = Directory,
      info_contents =
        [\<lparr>name = ''mcx'', filename = ''mcx.yml'', path = ''devices/mcx.yml''\<rparr>,
         \<lparr>name = ''lpc'', filename = ''lpc.yml'', path = ''devices/lpc.yml''\<rparr>],
      info_filename = None\<rparr>"


section \<open>Facts about the string operations\<close>

lemma startswith_iff: "startswith s pre \<longleftrightarrow> (\<exists>post. s = pre @ post)"
  unfolding startswith_def
  by (metis append_eq_conv_conj append_take_drop_id)

lemma py_in_iff: "py_in sub s \<longleftrightarrow> (\<exists>pre post. s = pre @ sub @ post)"
proof (induction s)
  case Nil
  show ?case by simp
next
  case (Cons c cs)
  have "(\<exists>pre post. c # cs = pre @ sub @ post) \<longleftrightarrow>
        (\<exists>post. c # cs = sub @ post) \<or> (\<exists>pre post. cs = pre @ sub @ post)"
    by (auto simp: Cons_eq_append_conv)
  then show ?case
    using Cons.IH by (simp add: startswith_iff)
qed

lemma endswith_iff: "endswith s suf \<longleftrightarrow> (\<exists>pre. s = pre @ suf)"
  unfolding endswith_def
  by (metis append_eq_conv_conj append_take_drop_id diff_add_inverse2 length_append
      le_add2 length_drop)


section \<open>Generation before a manifest is loaded\<close>

text \<open>
  Claim C2 says that generating a document before any root manifest was fetched fails
  with a generation error. \<open>generate_manifest_dict\<close> has no such failure: its guard
  \<open>if self.explorer.manifest\<close> skips every section, and the function returns the
  document \<open>{'manifest': {}}\<close>. In the fresh application state, where the explorer
  holds \<open>None\<close>, generation returns that empty document.
\<close>

theorem generate_fresh_returns_empty_document:
  "generate_manifest_dict fresh_gui = Inr (PDict [(''manifest'', PDict [])])"
  by (simp add: generate_manifest_dict_def fresh_gui_def new_gui_def new_explorer_def)

text \<open>
  Claim C2, amended: whenever the explorer holds no manifest (\<open>None\<close>, or any other
  value Python takes for false), generation raises nothing and returns the empty
  document \<open>{'manifest': {}}\<close>, with no passthrough section and no project list.
\<close>

theorem generate_without_manifest:
  "\<not> truthy (manifest (explorer g)) \<Longrightarrow>
     generate_manifest_dict g = Inr (PDict [(''manifest'', PDict [])])"
  by (simp add: generate_manifest_dict_def)

theorem generate_without_manifest_witness:
  "\<not> truthy (manifest (explorer (new_gui ''t'')))
   \<and> generate_manifest_dict (new_gui ''t'') = Inr (PDict [(''manifest'', PDict [])])"
proof -
  have h: "\<not> truthy (manifest (explorer (new_gui ''t'')))"
    by (simp add: new_gui_def new_explorer_def)
  show ?thesis
    using h generate_without_manifest [OF h] by simp
qed


section \<open>Categories\<close>

lemma append_to_map:
  "append_to c x (map (\<lambda>k. (k, f k)) ks) = map (\<lambda>k. (k, if k = c then f k @ [x] else f k)) ks"
  by (simp add: append_to_def)

lemma categorize_fold:
  "fold (\<lambda>(p, info) cats. append_to (category_of (info_path info)) (info_path info, info) cats)
        st (map (\<lambda>k. (k, f k)) ks) =
   map (\<lambda>k. (k, f k @ map (\<lambda>(q, i). (info_path i, i))
                         (filter (\<lambda>(q, i). category_of (info_path i) = k) st))) ks"
proof (induction st arbitrary: f)
  case Nil
  show ?case by simp
next
  case (Cons a st)
  obtain q i where a: "a = (q, i)" by (cases a)
  show ?case
    unfolding a by (simp add: append_to_map Cons.IH)
qed

lemma categorize_eq:
  "categorize st =
     map (\<lambda>k. (k, map (\<lambda>(q, i). (info_path i, i))
                        (filter (\<lambda>(q, i). category_of (info_path i) = k) st))) category_names"
  using categorize_fold [of st "\<lambda>k. []" category_names]
  by (simp add: categorize_def)

text \<open>
  Claim C7: the category of a normalized path is decided by the first rule that
  matches, in the order Base Files, Devices, Middleware, RTOS, Other, and a rule matches
  when its pattern occurs in the path as a substring (the path is some text, the pattern,
  some text; characters are compared as they are, so capital letters do not match).
  The category is always one of the five names, the names are different from each other,
  and the categorizing loop puts every entry of the structure into the list of its
  category and into no other list.
\<close>

theorem category_assignment:
  "category_of p =
     (if (\<exists>a b. p = a @ ''base.yml'' @ b) \<or> (\<exists>a b. p = a @ ''internal.yml'' @ b)
      then ''Base Files''
      else if (\<exists>a b. p = a @ ''devices'' @ b) then ''Devices''
      else if (\<exists>a b. p = a @ ''middleware'' @ b) then ''Middleware''
      else if (\<exists>a b. p = a @ ''rtos'' @ b) then ''RTOS''
      else ''Other'')
   \<and> category_of p \<in> set category_names
   \<and> distinct category_names
   \<and> categorize st =
       map (\<lambda>k. (k, map (\<lambda>(q, i). (info_path i, i))
                          (filter (\<lambda>(q, i). category_of (info_path i) = k) st))) category_names
   \<and> category_of ''Devices/RTOS.YML'' = ''Other''"
proof -
  have 1: "category_of p =
     (if (\<exists>a b. p = a @ ''base.yml'' @ b) \<or> (\<exists>a b. p = a @ ''internal.yml'' @ b)
      then ''Base Files''
      else if (\<exists>a b. p = a @ ''devices'' @ b) then ''Devices''
      else if (\<exists>a b. p = a @ ''middleware'' @ b) then ''Middleware''
      else if (\<exists>a b. p = a @ ''rtos'' @ b) then ''RTOS''
      else ''Other'')"
    unfolding category_of_def py_in_iff by (rule refl)
  have 2: "category_of p \<in> set category_names"
    by (simp add: category_of_def category_names_def)
  have 3: "distinct category_names"
    by (simp add: category_names_def)
  have 4: "category_of ''Devices/RTOS.YML'' = ''Other''"
    by (simp add: category_of_def startswith_def)
  show ?thesis
    using 1 2 3 4 categorize_eq [of st] by blast
qed


section \<open>Saving and loading a configuration\<close>

lemma ManifestConfig_created_at:
  "ManifestConfig now kwargs = Inr c \<Longrightarrow> created_at c \<noteq> PNone"
  by (auto simp: ManifestConfig_def post_init_def split: if_splits)

lemma build_config_created_at:
  "created_at (config (build_config_from_ui now g)) = PStr now"
  by (simp add: build_config_from_ui_def default_config_def Let_def)

text \<open>
  Claim C8: a configuration written by \<open>save_config\<close> and read back by \<open>load_config\<close>
  is the same configuration, field for field: the imports map with its values, the
  group filters, the three toggles, the creation time, the revision and the URL. A
  configuration always has a creation time (\<open>__post_init__\<close> sets it, see
  \<open>ManifestConfig_created_at\<close> and \<open>build_config_created_at\<close>), which is the
  hypothesis; the time of loading plays no part.
\<close>

theorem config_roundtrip:
  "created_at c \<noteq> PNone \<Longrightarrow> config_of_data now (config_dict c) = Inr c"
  by (simp add: config_of_data_def config_dict_def ManifestConfig_def field_names_def
      kwarg_def post_init_def)

theorem config_roundtrip_witness:
  "created_at (config (build_config_from_ui ''t0'' fresh_gui)) \<noteq> PNone
   \<and> config_of_data ''t1'' (snd (save_config ''t0'' fresh_gui))
       = Inr (config (fst (save_config ''t0'' fresh_gui)))"
proof -
  have h: "created_at (config (build_config_from_ui ''t0'' fresh_gui)) \<noteq> PNone"
    by (simp add: build_config_created_at)
  show ?thesis
    using h config_roundtrip [OF h, of "''t1''"] by (simp add: save_config_def Let_def)
qed


section \<open>Directory listings\<close>

lemma collect_files_suffix:
  "collect_files d fs acc = Inr r \<Longrightarrow> list_all (\<lambda>it. endswith (filename it) ''.yml'') acc \<Longrightarrow>
     list_all (\<lambda>it. endswith (filename it) ''.yml'') r"
proof (induction fs arbitrary: acc)
  case Nil
  then show ?case by simp
next
  case (Cons f fs)
  then show ?case
    by (auto simp: mk_item_def split: sum.splits if_splits)
qed

lemma collect_files_names:
  "map file_name fs = map Inr names \<Longrightarrow>
     collect_files d fs acc = Inr (acc @ map (mk_item d) (filter (\<lambda>n. endswith n ''.yml'') names))"
proof (induction fs arbitrary: acc names)
  case Nil
  then show ?case by simp
next
  case (Cons f fs)
  then obtain n ns where names: "names = n # ns" and f: "file_name f = Inr n"
    and rest: "map file_name fs = map Inr ns"
    by (cases names) auto
  show ?case
    using Cons.IH [OF rest] by (simp add: names f)
qed

lemma fetch_suffix:
  "list_all (\<lambda>it. endswith (filename it) ''.yml'') (fetch_directory_contents w ex d)"
proof (cases "try_fetch w (api_url (manifest_url ex) d) d")
  case (Inl e)
  then show ?thesis by (simp add: fetch_directory_contents_def)
next
  case (Inr r)
  show ?thesis
  proof (cases r)
    case None
    with Inr show ?thesis by (simp add: fetch_directory_contents_def)
  next
    case (Some contents)
    with Inr have "try_fetch w (api_url (manifest_url ex) d) d = Inr (Some contents)" by simp
    then obtain fs where "collect_files d fs [] = Inr contents"
      by (auto simp: try_fetch_def split: http_outcome.splits if_splits option.splits sum.splits)
    from collect_files_suffix [OF this]
    have "list_all (\<lambda>it. endswith (filename it) ''.yml'') contents"
      by simp
    with Inr Some show ?thesis by (simp add: fetch_directory_contents_def)
  qed
qed

lemma fetch_offline: "fetch_directory_contents offline ex d = []"
  by (simp add: fetch_directory_contents_def try_fetch_def offline_def)

lemma devices_listing_names:
  "map file_name devices_listing = map Inr [''mcx.yml'', ''lpc.yml'', ''README.md'']"
  by (simp add: devices_listing_def file_name_def)

lemma mk_item_mcx:
  "mk_item d ''mcx.yml'' = \<lparr>name = ''mcx'', filename = ''mcx.yml'', path = d @ ''mcx.yml''\<rparr>"
  by (simp add: mk_item_def replace.simps startswith_def)

lemma mk_item_lpc:
  "mk_item d ''lpc.yml'' = \<lparr>name = ''lpc'', filename = ''lpc.yml'', path = d @ ''lpc.yml''\<rparr>"
  by (simp add: mk_item_def replace.simps startswith_def)

lemma fetch_devices_world:
  "fetch_directory_contents devices_world ex d =
     [\<lparr>name = ''mcx'', filename = ''mcx.yml'', path = d @ ''mcx.yml''\<rparr>,
      \<lparr>name = ''lpc'', filename = ''lpc.yml'', path = d @ ''lpc.yml''\<rparr>]"
  by (simp add: fetch_directory_contents_def try_fetch_def devices_world_def
      collect_files_names [OF devices_listing_names] endswith_def mk_item_mcx mk_item_lpc)

text \<open>
  Claim C6: the listing fetch gives the empty list, and raises nothing, when the
  request fails (a transport error or a timeout), when the status is not 200, and
  when the body cannot be parsed; every entry it returns has a file name ending in
  \<open>.yml\<close>; and for a 200 response listing files by name it returns exactly the
  entries whose name ends in \<open>.yml\<close>, in the order of the listing. The function
  returns a list for every remote side, so no failure reaches its caller.
\<close>

theorem listing_failures_absorbed:
  "(listing w (api_url (manifest_url ex) d) = RequestFailed \<longrightarrow>
      fetch_directory_contents w ex d = [])
   \<and> (\<forall>code body. listing w (api_url (manifest_url ex) d) = Response code body \<and> code \<noteq> 200 \<longrightarrow>
      fetch_directory_contents w ex d = [])
   \<and> (listing w (api_url (manifest_url ex) d) = Response 200 None \<longrightarrow>
      fetch_directory_contents w ex d = [])
   \<and> list_all (\<lambda>it. endswith (filename it) ''.yml'') (fetch_directory_contents w ex d)
   \<and> (\<forall>files names.
        listing w (api_url (manifest_url ex) d) = Response 200 (Some (PList files)) \<and>
        map file_name files = map Inr names \<longrightarrow>
        fetch_directory_contents w ex d =
          map (mk_item d) (filter (\<lambda>n. endswith n ''.yml'') names))"
proof -
  have 1: "listing w (api_url (manifest_url ex) d) = RequestFailed \<longrightarrow>
      fetch_directory_contents w ex d = []"
    by (simp add: fetch_directory_contents_def try_fetch_def)
  have 2: "\<forall>code body. listing w (api_url (manifest_url ex) d) = Response code body \<and> code \<noteq> 200 \<longrightarrow>
      fetch_directory_contents w ex d = []"
    by (simp add: fetch_directory_contents_def try_fetch_def)
  have 3: "listing w (api_url (manifest_url ex) d) = Response 200 None \<longrightarrow>
      fetch_directory_contents w ex d = []"
    by (simp add: fetch_directory_contents_def try_fetch_def)
  have 5: "\<forall>files names.
        listing w (api_url (manifest_url ex) d) = Response 200 (Some (PList files)) \<and>
        map file_name files = map Inr names \<longrightarrow>
        fetch_directory_contents w ex d =
          map (mk_item d) (filter (\<lambda>n. endswith n ''.yml'') names)"
    by (auto simp: fetch_directory_contents_def try_fetch_def collect_files_names)
  show ?thesis
    using 1 2 3 5 fetch_suffix [of w ex d] by blast
qed

theorem listing_failures_absorbed_witness:
  "fetch_directory_contents offline new_explorer ''devices/'' = []
   \<and> fetch_directory_contents not_found new_explorer ''devices/'' = []
   \<and> fetch_directory_contents devices_world new_explorer ''devices/'' =
       [\<lparr>name = ''mcx'', filename = ''mcx.yml'', path = ''devices/mcx.yml''\<rparr>,
        \<lparr>name = ''lpc'', filename = ''lpc.yml'', path = ''devices/lpc.yml''\<rparr>]"
proof -
  have a: "listing offline (api_url (manifest_url new_explorer) ''devices/'') = RequestFailed"
    by (simp add: offline_def)
  have b: "listing not_found (api_url (manifest_url new_explorer) ''devices/'') = Response 404 None
           \<and> (404::nat) \<noteq> 200"
    by (simp add: not_found_def)
  have c: "listing devices_world (api_url (manifest_url new_explorer) ''devices/'') =
             Response 200 (Some (PList devices_listing))"
    by (simp add: devices_world_def)
  have 1: "fetch_directory_contents offline new_explorer ''devices/'' = []"
    using listing_failures_absorbed [of offline new_explorer "''devices/''"] a by blast
  have 2: "fetch_directory_contents not_found new_explorer ''devices/'' = []"
    using listing_failures_absorbed [of not_found new_explorer "''devices/''"] b by blast
  have 3: "fetch_directory_contents devices_world new_explorer ''devices/'' =
             map (mk_item ''devices/'')
               (filter (\<lambda>n. endswith n ''.yml'') [''mcx.yml'', ''lpc.yml'', ''README.md''])"
    using listing_failures_absorbed [of devices_world new_explorer "''devices/''"] c
      devices_listing_names by blast
  show ?thesis
    unfolding 1 2 3 by (simp add: endswith_def mk_item_mcx mk_item_lpc)
qed


section \<open>Classifying an ambiguous path\<close>

lemma split_on_nonempty: "split_on c s \<noteq> []"
  by (induction s) (auto split: list.splits)

lemma last_split_on_Nil: "last (split_on c s) = [] \<Longrightarrow> s = [] \<or> last s = c"
proof (induction s)
  case Nil
  show ?case by simp
next
  case (Cons x xs)
  then show ?case
    using split_on_nonempty [of c xs]
    by (auto split: list.splits if_splits)
qed

lemma endswith_slash: "endswith p ''/'' \<longleftrightarrow> p \<noteq> [] \<and> last p = CHR ''/''"
  unfolding endswith_iff
  by (metis append_butlast_last_id last_snoc snoc_eq_iff_butlast)

lemma last_filter_keep: "xs \<noteq> [] \<Longrightarrow> P (last xs) \<Longrightarrow> last (filter P xs) = last xs"
proof (induction xs)
  case Nil
  then show ?case by simp
next
  case (Cons x xs)
  show ?case
  proof (cases "xs = []")
    case True
    with Cons.prems show ?thesis by simp
  next
    case False
    with Cons.prems have p: "P (last xs)" by simp
    have "last xs \<in> set xs" using False by simp
    with p have "filter P xs \<noteq> []" by (auto simp: filter_empty_conv)
    with Cons.IH [OF False p] False show ?thesis by simp
  qed
qed

text \<open>
  \<open>Path(p).name\<close> is the text after the last separator, unless that text is a single
  dot, which pathlib drops from the path.
\<close>

lemma path_name_last_segment:
  assumes "\<not> endswith p ''/''" "last_segment p \<noteq> ''.''"
  shows "path_name p = last_segment p"
proof (cases "last_segment p = []")
  case True
  then have "p = []"
    using assms(1) last_split_on_Nil [of "CHR ''/''" p]
    by (auto simp: last_segment_def endswith_slash)
  then show ?thesis
    by (simp add: path_name_def path_parts_def last_segment_def)
next
  case False
  let ?P = "\<lambda>s. s \<noteq> [] \<and> s \<noteq> ''.''"
  have keep: "?P (last (split_on CHR ''/'' p))"
    using False assms(2) by (simp add: last_segment_def)
  have l: "last (filter ?P (split_on CHR ''/'' p)) = last (split_on CHR ''/'' p)"
    using split_on_nonempty keep by (rule last_filter_keep)
  have "last (split_on CHR ''/'' p) \<in> set (split_on CHR ''/'' p)"
    using split_on_nonempty by (rule last_in_set)
  then have ne: "filter ?P (split_on CHR ''/'' p) \<noteq> []"
    using keep by (auto simp: filter_empty_conv)
  show ?thesis
    using l ne by (auto simp: path_name_def path_parts_def last_segment_def split: list.splits)
qed

text \<open>
  Claim C1 says that an ambiguous path with an empty listing is a file whose display
  name is the last path segment. The path \<open>a/.\<close> is ambiguous, its listing is
  empty when the remote side is out of reach, and its last segment is the dot; but
  \<open>Path('a/.').name\<close> drops the dot, and the display name is \<open>a\<close>.
\<close>

theorem dot_segment_display_name:
  "\<not> endswith ''a/.'' ''.yml'' \<and> \<not> endswith ''a/.'' ''/''
   \<and> fetch_directory_contents offline new_explorer (''a/.'' @ ''/'') = []
   \<and> info_type (analyze_import_path offline new_explorer ''a/.'') = File
   \<and> info_path (analyze_import_path offline new_explorer ''a/.'') = ''a/.''
   \<and> info_filename (analyze_import_path offline new_explorer ''a/.'') = Some ''a''
   \<and> last_segment ''a/.'' = ''.''"
  by (simp add: endswith_def analyze_import_path_def Let_def fetch_offline path_name_def
      path_parts_def last_segment_def)

text \<open>
  Claim C1, amended: for a raw path \<open>p\<close> that ends neither in \<open>.yml\<close> nor in
  \<open>/\<close>, the classifier fetches the listing at \<open>p/\<close>. When the listing is not
  empty the entry is a directory with normalized path \<open>p/\<close> and the listing as
  contents; otherwise it is a file with path \<open>p\<close> unchanged and display name
  \<open>Path(p).name\<close>: the last segment of \<open>p\<close> that is neither empty nor a single
  dot, or the empty string when there is none. So the entry is a directory exactly when
  the listing is not empty, and the display name of a file is the text after the last
  \<open>/\<close> whenever that text is not a single dot.
\<close>

theorem classify_ambiguous:
  assumes "\<not> endswith p ''.yml''" and "\<not> endswith p ''/''"
  shows "analyze_import_path w ex p =
           (if fetch_directory_contents w ex (p @ ''/'') \<noteq> []
            then \<lparr>info_path = p @ ''/'', info_type = Directory,
                  info_contents = fetch_directory_contents w ex (p @ ''/''),
                  info_filename = None\<rparr>
            else \<lparr>info_path = p, info_type = File, info_contents = [],
                  info_filename = Some (path_name p)\<rparr>)
         \<and> (info_type (analyze_import_path w ex p) = Directory
               \<longleftrightarrow> fetch_directory_contents w ex (p @ ''/'') \<noteq> [])
         \<and> (last_segment p \<noteq> ''.'' \<longrightarrow> path_name p = last_segment p)"
  using assms path_name_last_segment [of p]
  by (simp add: analyze_import_path_def Let_def)

theorem classify_ambiguous_witness:
  "\<not> endswith ''rtos'' ''.yml'' \<and> \<not> endswith ''rtos'' ''/''
   \<and> analyze_import_path offline new_explorer ''rtos'' =
       \<lparr>info_path = ''rtos'', info_type = File, info_contents = [], info_filename = Some ''rtos''\<rparr>
   \<and> \<not> endswith ''boards/devices'' ''.yml'' \<and> \<not> endswith ''boards/devices'' ''/''
   \<and> analyze_import_path devices_world new_explorer ''boards/devices'' =
       \<lparr>info_path = ''boards/devices/'', info_type = Directory,
        info_contents =
          [\<lparr>name = ''mcx'', filename = ''mcx.yml'', path = ''boards/devices/mcx.yml''\<rparr>,
           \<lparr>name = ''lpc'', filename = ''lpc.yml'', path = ''boards/devices/lpc.yml''\<rparr>],
        info_filename = None\<rparr>"
proof -
  have a: "\<not> endswith ''rtos'' ''.yml''" and b: "\<not> endswith ''rtos'' ''/''"
    by (simp_all add: endswith_def)
  have c: "last_segment ''rtos'' = ''rtos''"
    by (simp add: last_segment_def)
  have d: "\<not> endswith ''boards/devices'' ''.yml''" and e: "\<not> endswith ''boards/devices'' ''/''"
    by (simp_all add: endswith_def)
  have 1: "analyze_import_path offline new_explorer ''rtos'' =
       \<lparr>info_path = ''rtos'', info_type = File, info_contents = [], info_filename = Some ''rtos''\<rparr>"
    using classify_ambiguous [OF a b, of offline new_explorer]
    by (simp add: fetch_offline c)
  have 2: "analyze_import_path devices_world new_explorer ''boards/devices'' =
       \<lparr>info_path = ''boards/devices/'', info_type = Directory,
        info_contents =
          [\<lparr>name = ''mcx'', filename = ''mcx.yml'', path = ''boards/devices/mcx.yml''\<rparr>,
           \<lparr>name = ''lpc'', filename = ''lpc.yml'', path = ''boards/devices/lpc.yml''\<rparr>],
        info_filename = None\<rparr>"
    using classify_ambiguous [OF d e, of devices_world new_explorer]
    by (simp add: fetch_devices_world)
  show ?thesis
    using a b d e 1 2 by simp
qed


section \<open>The structure analyzer\<close>

lemma remdups_snoc: "remdups (xs @ [x]) = remdups (filter (\<lambda>y. y \<noteq> x) xs) @ [x]"
  by (induction xs) auto

lemma first_occurrences_Nil [simp]: "first_occurrences [] = []"
  by (simp add: first_occurrences_def)

lemma first_occurrences_Cons:
  "first_occurrences (x # xs) = x # first_occurrences (filter (\<lambda>y. y \<noteq> x) xs)"
  by (simp add: first_occurrences_def remdups_snoc rev_filter)

lemma set_first_occurrences [simp]: "set (first_occurrences xs) = set xs"
  by (simp add: first_occurrences_def)

lemma distinct_first_occurrences [simp]: "distinct (first_occurrences xs)"
  by (simp add: first_occurrences_def)

lemma first_occurrences_distinct: "distinct xs \<Longrightarrow> first_occurrences xs = xs"
  by (simp add: first_occurrences_def distinct_remdups_id)

lemma set_string_entries: "set (string_entries xs) = {s. PStr s \<in> set xs}"
  by (induction xs rule: string_entries.induct) auto

text \<open>
  The keys of a dict after a loop of assignments: when every step assigns to the key
  of its item, the keys are the old ones followed by the new ones at their first
  occurrence.
\<close>

lemma fold_keys:
  assumes "\<And>x s. x \<in> set xs \<Longrightarrow>
             K (f x s) = (if key x \<in> set (K s) then K s else K s @ [key x])"
  shows "K (fold f xs s) =
           K s @ first_occurrences (filter (\<lambda>k. k \<notin> set (K s)) (map key xs))"
  using assms
proof (induction xs arbitrary: s)
  case Nil
  show ?case by simp
next
  case (Cons x xs)
  have step: "K (f x s) = (if key x \<in> set (K s) then K s else K s @ [key x])"
    by (rule Cons.prems) simp
  have ih: "K (fold f xs (f x s)) =
      K (f x s) @ first_occurrences (filter (\<lambda>k. k \<notin> set (K (f x s))) (map key xs))"
    by (rule Cons.IH) (simp add: Cons.prems)
  show ?case
  proof (cases "key x \<in> set (K s)")
    case True
    with step ih show ?thesis by simp
  next
    case False
    have "filter (\<lambda>k. k \<notin> set (K s @ [key x])) (map key xs) =
          filter (\<lambda>y. y \<noteq> key x) (filter (\<lambda>k. k \<notin> set (K s)) (map key xs))"
      by (auto intro: filter_cong)
    with False step ih show ?thesis
      by (simp add: first_occurrences_Cons)
  qed
qed

lemma analyze_step_simps:
  "analyze_step w ex (PStr s) st = AList.update s (analyze_import_path w ex s) st"
  "analyze_step w ex PNone st = st"
  "analyze_step w ex (PBool b) st = st"
  "analyze_step w ex (PInt i) st = st"
  "analyze_step w ex (PList l) st = st"
  "analyze_step w ex (PDict d) st = st"
  by (simp_all add: analyze_step_def)

lemma analyze_step_keys:
  "map fst (fold (analyze_step w ex) items acc) =
     map fst acc @ first_occurrences (filter (\<lambda>k. k \<notin> set (map fst acc)) (string_entries items))"
proof (induction items arbitrary: acc rule: string_entries.induct)
  case 1
  show ?case by simp
next
  case (2 s xs)
  show ?case
  proof (cases "s \<in> set (map fst acc)")
    case True
    then show ?thesis
      using 2 [of "AList.update s (analyze_import_path w ex s) acc"]
      by (simp add: analyze_step_simps AList.update_keys)
  next
    case False
    have "filter (\<lambda>k. k \<notin> set (map fst acc @ [s])) (string_entries xs) =
          filter (\<lambda>y. y \<noteq> s) (filter (\<lambda>k. k \<notin> set (map fst acc)) (string_entries xs))"
      by (auto intro: filter_cong)
    with False show ?thesis
      using 2 [of "AList.update s (analyze_import_path w ex s) acc"]
      by (simp add: analyze_step_simps AList.update_keys first_occurrences_Cons)
  qed
qed (simp_all add: analyze_step_simps)

lemma analyze_step_values:
  "map_of (fold (analyze_step w ex) items acc) s =
     (if PStr s \<in> set items then Some (analyze_import_path w ex s) else map_of acc s)"
proof (induction items arbitrary: acc)
  case Nil
  show ?case by simp
next
  case (Cons x xs)
  show ?case
    by (cases x) (auto simp: Cons.IH analyze_step_simps AList.update_conv')
qed

lemma analyze_imports_eq:
  assumes "ensure_manifest w ex = Inr ex1"
    and "self_import (manifest ex1) = Inr (PList xs)"
  shows "analyze_imports w ex =
           Inr (ex1\<lparr>import_structure := fold (analyze_step w ex1) xs []\<rparr>,
                fold (analyze_step w ex1) xs [])"
  using assms by (simp add: analyze_imports_def Let_def)

text \<open>
  Claim C9: when the manifest is loaded and its self-import declaration is a list,
  the analyzer returns a structure and raises nothing, whatever the entries of the list
  are. The keys of the structure are exactly the string entries of the list, in the
  order of their first occurrence, and each key is mapped to the classification of
  that string; an entry that is no string leaves no trace.
\<close>

theorem analyzer_skips_non_strings:
  assumes "ensure_manifest w ex = Inr ex1"
    and "self_import (manifest ex1) = Inr (PList xs)"
  shows "\<exists>st. analyze_imports w ex = Inr (ex1\<lparr>import_structure := st\<rparr>, st)
           \<and> set (map fst st) = {s. PStr s \<in> set xs}
           \<and> map fst st = first_occurrences (string_entries xs)
           \<and> (\<forall>s. map_of st s =
                 (if PStr s \<in> set xs then Some (analyze_import_path w ex1 s) else None))"
proof -
  let ?st = "fold (analyze_step w ex1) xs []"
  have a: "analyze_imports w ex = Inr (ex1\<lparr>import_structure := ?st\<rparr>, ?st)"
    using assms by (rule analyze_imports_eq)
  have k: "map fst ?st = first_occurrences (string_entries xs)"
    using analyze_step_keys [of w ex1 xs "[]"] by simp
  have s: "set (map fst ?st) = {s. PStr s \<in> set xs}"
    unfolding k by (simp add: set_string_entries)
  have v: "\<forall>s. map_of ?st s =
                 (if PStr s \<in> set xs then Some (analyze_import_path w ex1 s) else None)"
    by (simp add: analyze_step_values)
  show ?thesis
    using a k s v by blast
qed

lemma mixed_explorer_loaded:
  "ensure_manifest w mixed_explorer = Inr mixed_explorer"
  "self_import (manifest mixed_explorer) = Inr (PList mixed_imports)"
  by (simp_all add: ensure_manifest_def mixed_explorer_def self_import_def)

lemma mixed_imports_keys:
  "first_occurrences (string_entries mixed_imports) = [''rtos.yml'', ''base.yml'']"
  by (simp add: mixed_imports_def first_occurrences_def)

theorem analyzer_skips_non_strings_witness:
  "ensure_manifest offline mixed_explorer = Inr mixed_explorer
   \<and> self_import (manifest mixed_explorer) = Inr (PList mixed_imports)
   \<and> (\<exists>st. analyze_imports offline mixed_explorer = Inr (mixed_explorer\<lparr>import_structure := st\<rparr>, st)
          \<and> map fst st = [''rtos.yml'', ''base.yml''])"
proof -
  have a: "ensure_manifest offline mixed_explorer = Inr mixed_explorer"
    by (rule mixed_explorer_loaded)
  have b: "self_import (manifest mixed_explorer) = Inr (PList mixed_imports)"
    by (rule mixed_explorer_loaded)
  show ?thesis
    using a b analyzer_skips_non_strings [OF a b]
    by (auto simp: mixed_imports_keys)
qed


section \<open>Flattening the selections\<close>

lemma update_fresh: "k \<notin> fst ` set al \<Longrightarrow> AList.update k v al = al @ [(k, v)]"
  by (induction al) auto

lemma set_update_subset: "set (AList.update k v al) \<subseteq> insert (k, v) (set al)"
  by (induction al) auto

lemma config_import_keys:
  "fst ` set (config_import ds pv imps) \<subseteq> insert (fst pv) (fst ` set imps)"
  by (cases "snd pv") (auto simp: config_import_def AList.dom_update)

lemma fold_config_import_keys:
  "fst ` set (fold (config_import ds) vars imps) \<subseteq> fst ` set imps \<union> fst ` set vars"
proof (induction vars arbitrary: imps)
  case Nil
  show ?case by simp
next
  case (Cons pv vars)
  show ?case
    using Cons.IH [of "config_import ds pv imps"] config_import_keys [of ds pv imps]
    by auto
qed

lemma config_import_fresh:
  "fst pv \<notin> fst ` set imps \<Longrightarrow> config_import ds pv imps = imps @ config_import ds pv []"
  by (cases "snd pv") (simp_all add: config_import_def update_fresh)

lemma config_import_single: "length (config_import ds pv []) \<le> 1"
  by (cases "snd pv") (simp_all add: config_import_def)

lemma add_import_acc: "add_import kv acc = acc @ add_import kv []"
  by (cases "snd kv") (simp_all add: add_import_def)

lemma fold_add_import_acc: "fold add_import kvs acc = acc @ fold add_import kvs []"
proof (induction kvs arbitrary: acc)
  case Nil
  show ?case by simp
next
  case (Cons kv kvs)
  show ?case
    using Cons.IH [of "add_import kv acc"] Cons.IH [of "add_import kv []"]
      add_import_acc [of kv acc]
    by simp
qed

lemma flatten_snoc:
  assumes "fst pv \<notin> fst ` set vars"
  shows "flatten (vars @ [pv]) ds = flatten vars ds @ flatten [pv] ds"
proof -
  let ?imps = "fold (config_import ds) vars []"
  have "fst pv \<notin> fst ` set ?imps"
    using assms fold_config_import_keys [of ds vars "[]"] by auto
  then have "config_import ds pv ?imps = ?imps @ config_import ds pv []"
    by (rule config_import_fresh)
  then have "flatten (vars @ [pv]) ds =
      fold add_import (config_import ds pv []) (fold add_import ?imps [])"
    by (simp add: flatten_def)
  also have "\<dots> = fold add_import ?imps [] @ fold add_import (config_import ds pv []) []"
    by (rule fold_add_import_acc)
  finally show ?thesis
    by (simp add: flatten_def)
qed

lemma flatten_concat:
  "distinct (map fst vars) \<Longrightarrow> flatten vars ds = concat (map (\<lambda>pv. flatten [pv] ds) vars)"
proof (induction vars rule: rev_induct)
  case Nil
  show ?case by (simp add: flatten_def)
next
  case (snoc pv vars)
  then have "fst pv \<notin> fst ` set vars" and "distinct (map fst vars)"
    by auto
  then show ?case
    using snoc.IH by (simp add: flatten_snoc)
qed

lemma flatten_single:
  "flatten [(p, BooleanVar b)] ds = (if b then [PStr p] else [])"
  "flatten [(p, StringVar ''all'')] ds = [PStr p]"
  "flatten [(p, StringVar ''none'')] ds = []"
  "flatten [(p, StringVar ''selective'')] ds = map PStr (selected_files ds p)"
  by (simp_all add: flatten_def config_import_def add_import_def)

lemma flatten_excluded:
  "list_all (\<lambda>pv. snd pv = BooleanVar False \<or> snd pv = StringVar ''none'') vars \<Longrightarrow>
     flatten vars ds = []"
proof -
  assume a: "list_all (\<lambda>pv. snd pv = BooleanVar False \<or> snd pv = StringVar ''none'') vars"
  have inv: "list_all (\<lambda>kv. snd kv = PBool False) imps \<Longrightarrow>
             list_all (\<lambda>pv. snd pv = BooleanVar False \<or> snd pv = StringVar ''none'') vs \<Longrightarrow>
             list_all (\<lambda>kv. snd kv = PBool False) (fold (config_import ds) vs imps)" for vs imps
  proof (induction vs arbitrary: imps)
    case Nil
    then show ?case by simp
  next
    case (Cons pv vs)
    have "list_all (\<lambda>kv. snd kv = PBool False) (config_import ds pv imps)"
      using Cons.prems set_update_subset [of "fst pv" "PBool False" imps]
      by (auto simp: config_import_def list_all_iff)
    then show ?case
      using Cons.IH Cons.prems by simp
  qed
  have none: "list_all (\<lambda>kv. snd kv = PBool False) kvs \<Longrightarrow> fold add_import kvs [] = []" for kvs
    by (induction kvs) (simp_all add: add_import_def)
  show ?thesis
    unfolding flatten_def using inv [of "[]" vars] a by (simp add: none)
qed

lemma mk_item_path: "endswith n ''.yml'' \<Longrightarrow> path (mk_item d n) \<noteq> d"
  by (auto simp: mk_item_def endswith_def)

lemma collect_files_paths:
  "collect_files d fs acc = Inr r \<Longrightarrow> list_all (\<lambda>it. path it \<noteq> d) acc \<Longrightarrow>
     list_all (\<lambda>it. path it \<noteq> d) r"
proof (induction fs arbitrary: acc)
  case Nil
  then show ?case by simp
next
  case (Cons f fs)
  show ?case
  proof (cases "file_name f")
    case (Inl e)
    with Cons.prems show ?thesis by simp
  next
    case (Inr n)
    show ?thesis
    proof (cases "endswith n ''.yml''")
      case True
      then have "list_all (\<lambda>it. path it \<noteq> d) (acc @ [mk_item d n])"
        using Cons.prems(2) by (simp add: mk_item_path)
      moreover have "collect_files d fs (acc @ [mk_item d n]) = Inr r"
        using Cons.prems(1) Inr True by simp
      ultimately show ?thesis by (rule Cons.IH [rotated])
    next
      case False
      then have "collect_files d fs acc = Inr r"
        using Cons.prems(1) Inr by simp
      then show ?thesis using Cons.prems(2) by (rule Cons.IH)
    qed
  qed
qed

lemma fetch_paths: "list_all (\<lambda>it. path it \<noteq> d) (fetch_directory_contents w ex d)"
proof (cases "try_fetch w (api_url (manifest_url ex) d) d")
  case (Inl e)
  then show ?thesis by (simp add: fetch_directory_contents_def)
next
  case (Inr r)
  show ?thesis
  proof (cases r)
    case None
    with Inr show ?thesis by (simp add: fetch_directory_contents_def)
  next
    case (Some contents)
    with Inr have "try_fetch w (api_url (manifest_url ex) d) d = Inr (Some contents)" by simp
    then obtain fs where "collect_files d fs [] = Inr contents"
      by (auto simp: try_fetch_def split: http_outcome.splits if_splits option.splits sum.splits)
    from collect_files_paths [OF this]
    have "list_all (\<lambda>it. path it \<noteq> d) contents"
      by simp
    with Inr Some show ?thesis by (simp add: fetch_directory_contents_def)
  qed
qed

lemma selected_files_eq:
  "selected_files ds p =
     (case map_of ds p of None \<Rightarrow> [] | Some fv \<Rightarrow> map fst (filter snd fv))"
  by (simp add: selected_files_def)

lemma file_vars_keys:
  "fst ` set (fold (\<lambda>item fv. AList.update (path item) False fv) items acc) =
     fst ` set acc \<union> path ` set items"
  by (induction items arbitrary: acc) (auto simp: AList.dom_update)

lemma create_directory_options_selection:
  "\<exists>fv. map_of (directory_selections (create_directory_options g p cs)) p = Some fv
        \<and> set (map fst fv) = path ` set cs"
  using file_vars_keys [of "sort_key name cs" "[]"]
  by (simp add: create_directory_options_def Let_def AList.update_conv')

lemma selective_never_own_path:
  assumes "map_of ds p = Some fv"
    and "set (map fst fv) \<subseteq> path ` set (fetch_directory_contents w ex p)"
  shows "PStr p \<notin> set (flatten [(p, StringVar ''selective'')] ds)"
proof -
  have "p \<notin> path ` set (fetch_directory_contents w ex p)"
    using fetch_paths [of p w ex] by (auto simp: list_all_iff)
  with assms(2) have "p \<notin> set (map fst fv)" by blast
  then have "p \<notin> set (map fst (filter snd fv))" by auto
  then have "p \<notin> set (selected_files ds p)"
    by (simp add: selected_files_def assms(1))
  then show ?thesis
    unfolding flatten_single by (simp add: image_iff)
qed

text \<open>
  Claim C4: the flat import list is made entry by entry, in the order of the
  selections (a dict has each path once, which is the hypothesis of the first part).
  A boolean selection gives its path when it is true and nothing when it is false; mode
  \<open>all\<close> gives the path of the directory itself; mode \<open>none\<close> gives nothing; mode
  \<open>selective\<close> gives the children whose variable is true, by their full paths, and,
  the children being those of the directory's listing, never the path of the directory
  itself. Selections that are all false or \<open>none\<close> give the empty list.
\<close>

theorem flatten_selections:
  "(distinct (map fst vars) \<longrightarrow> flatten vars ds = concat (map (\<lambda>pv. flatten [pv] ds) vars))
   \<and> flatten [(p, BooleanVar b)] ds = (if b then [PStr p] else [])
   \<and> flatten [(p, StringVar ''all'')] ds = [PStr p]
   \<and> flatten [(p, StringVar ''none'')] ds = []
   \<and> flatten [(p, StringVar ''selective'')] ds = map PStr (selected_files ds p)
   \<and> selected_files ds p =
        (case map_of ds p of None \<Rightarrow> [] | Some fv \<Rightarrow> map fst (filter snd fv))
   \<and> (\<exists>fv. map_of (directory_selections (create_directory_options g p cs)) p = Some fv
            \<and> set (map fst fv) = path ` set cs)
   \<and> (\<forall>fv. map_of ds p = Some fv \<and>
            set (map fst fv) \<subseteq> path ` set (fetch_directory_contents w ex p) \<longrightarrow>
            PStr p \<notin> set (flatten [(p, StringVar ''selective'')] ds))
   \<and> (list_all (\<lambda>pv. snd pv = BooleanVar False \<or> snd pv = StringVar ''none'') vars \<longrightarrow>
        flatten vars ds = [])"
proof -
  have hom: "distinct (map fst vars) \<longrightarrow>
      flatten vars ds = concat (map (\<lambda>pv. flatten [pv] ds) vars)"
    by (rule impI) (rule flatten_concat)
  have own: "\<forall>fv. map_of ds p = Some fv \<and>
            set (map fst fv) \<subseteq> path ` set (fetch_directory_contents w ex p) \<longrightarrow>
            PStr p \<notin> set (flatten [(p, StringVar ''selective'')] ds)"
  proof (intro allI impI)
    fix fv
    assume "map_of ds p = Some fv \<and>
            set (map fst fv) \<subseteq> path ` set (fetch_directory_contents w ex p)"
    then show "PStr p \<notin> set (flatten [(p, StringVar ''selective'')] ds)"
      using selective_never_own_path [of ds p fv w ex] by (elim conjE)
  qed
  have excl: "list_all (\<lambda>pv. snd pv = BooleanVar False \<or> snd pv = StringVar ''none'') vars \<longrightarrow>
        flatten vars ds = []"
    by (rule impI) (rule flatten_excluded)
  show ?thesis
    apply (rule conjI, rule hom)
    apply (rule conjI, rule flatten_single(1))
    apply (rule conjI, rule flatten_single(2))
    apply (rule conjI, rule flatten_single(3))
    apply (rule conjI, rule flatten_single(4))
    apply (rule conjI, rule selected_files_eq)
    apply (rule conjI, rule create_directory_options_selection)
    apply (rule conjI, rule own)
    apply (rule excl)
    done
qed

theorem flatten_selections_witness:
  "distinct (map fst scenario_vars)
   \<and> flatten scenario_vars scenario_selections =
       [PStr ''base.yml'', PStr ''devices/mcx.yml'', PStr ''middleware/foo.yml'']
   \<and> map_of scenario_selections ''devices/''
        = Some [(''devices/lpc.yml'', False), (''devices/mcx.yml'', True)]
   \<and> set (map fst [(''devices/lpc.yml'', False), (''devices/mcx.yml'', True)])
        \<subseteq> path ` set (fetch_directory_contents devices_world new_explorer ''devices/'')
   \<and> PStr ''devices/'' \<notin> set (flatten [(''devices/'', StringVar ''selective'')] scenario_selections)
   \<and> list_all (\<lambda>pv. snd pv = BooleanVar False \<or> snd pv = StringVar ''none'') excluded_vars
   \<and> flatten excluded_vars scenario_selections = []"
proof -
  have d: "distinct (map fst scenario_vars)"
    by (simp add: scenario_vars_def)
  have m: "map_of scenario_selections ''devices/''
        = Some [(''devices/lpc.yml'', False), (''devices/mcx.yml'', True)]"
    by (simp add: scenario_selections_def)
  have s: "set (map fst [(''devices/lpc.yml'', False), (''devices/mcx.yml'', True)])
        \<subseteq> path ` set (fetch_directory_contents devices_world new_explorer ''devices/'')"
    by (simp add: fetch_devices_world)
  have e: "list_all (\<lambda>pv. snd pv = BooleanVar False \<or> snd pv = StringVar ''none'') excluded_vars"
    by (simp add: excluded_vars_def)
  note t1 = flatten_selections [where vars = scenario_vars and ds = scenario_selections
      and p = "''devices/''" and w = devices_world and ex = new_explorer]
  note t2 = flatten_selections [where vars = excluded_vars and ds = scenario_selections]
  have 1: "flatten scenario_vars scenario_selections =
       concat (map (\<lambda>pv. flatten [pv] scenario_selections) scenario_vars)"
    using t1 [THEN conjunct1] d by (rule mp)
  have own: "\<forall>fv. map_of scenario_selections ''devices/'' = Some fv \<and>
            set (map fst fv) \<subseteq> path ` set (fetch_directory_contents devices_world new_explorer ''devices/'') \<longrightarrow>
            PStr ''devices/'' \<notin> set (flatten [(''devices/'', StringVar ''selective'')] scenario_selections)"
    by (rule t1 [THEN conjunct2, THEN conjunct2, THEN conjunct2, THEN conjunct2, THEN conjunct2, THEN conjunct2, THEN conjunct2, THEN conjunct1])
  have 2: "PStr ''devices/'' \<notin> set (flatten [(''devices/'', StringVar ''selective'')] scenario_selections)"
    using own [rule_format, OF conjI [OF m s]] .
  have ex: "list_all (\<lambda>pv. snd pv = BooleanVar False \<or> snd pv = StringVar ''none'') excluded_vars \<longrightarrow>
        flatten excluded_vars scenario_selections = []"
    by (rule t2 [THEN conjunct2, THEN conjunct2, THEN conjunct2, THEN conjunct2, THEN conjunct2, THEN conjunct2, THEN conjunct2, THEN conjunct2])
  have 3: "flatten excluded_vars scenario_selections = []"
    using ex e by (rule mp)
  have 4: "flatten scenario_vars scenario_selections =
       [PStr ''base.yml'', PStr ''devices/mcx.yml'', PStr ''middleware/foo.yml'']"
    unfolding 1 by (simp add: scenario_vars_def flatten_single selected_files_def m)
  show ?thesis
    apply (rule conjI, rule d)
    apply (rule conjI, rule 4)
    apply (rule conjI, rule m)
    apply (rule conjI, rule s)
    apply (rule conjI, rule 2)
    apply (rule conjI, rule e)
    apply (rule 3)
    done
qed


section \<open>Directories without a listing\<close>

lemma endswith_yml_last: "endswith p ''.yml'' \<Longrightarrow> last p = CHR ''l''"
  by (auto simp: endswith_iff)

lemma slash_not_yml: "endswith p ''/'' \<Longrightarrow> \<not> endswith p ''.yml''"
  using endswith_yml_last [of p] by (auto simp: endswith_slash)

lemma analyze_directory_path:
  "endswith p ''/'' \<Longrightarrow>
     analyze_import_path w ex p =
       \<lparr>info_path = p, info_type = Directory,
        info_contents = fetch_directory_contents w ex p, info_filename = None\<rparr>"
  by (simp add: analyze_import_path_def slash_not_yml)

lemma flatten_member:
  assumes "distinct (map fst vars)" and "(p, BooleanVar True) \<in> set vars"
  shows "PStr p \<in> set (flatten vars ds)"
proof -
  have "flatten vars ds = concat (map (\<lambda>pv. flatten [pv] ds) vars)"
    using assms(1) by (rule flatten_concat)
  moreover have "PStr p \<in> set (flatten [(p, BooleanVar True)] ds)"
    by (simp add: flatten_single)
  ultimately show ?thesis
    using assms(2) by auto
qed

text \<open>
  Claim C10: a path that ends in \<open>/\<close> and whose listing came back empty is a
  directory entry with no contents. Presenting it creates one boolean variable, set to
  false, and no mode variable and no child variables; when the variable is true, the
  flat import list holds the path of the directory itself.
\<close>

theorem empty_directory_selection:
  assumes "endswith p ''/''" and "fetch_directory_contents w ex p = []"
  shows "analyze_import_path w ex p =
           \<lparr>info_path = p, info_type = Directory, info_contents = [], info_filename = None\<rparr>
         \<and> import_vars (section_item (p, analyze_import_path w ex p) g) =
             AList.update p (BooleanVar False) (import_vars g)
         \<and> directory_selections (section_item (p, analyze_import_path w ex p) g) =
             directory_selections g
         \<and> flatten [(p, BooleanVar True)] ds = [PStr p]
         \<and> flatten [(p, BooleanVar False)] ds = []
         \<and> (distinct (map fst vars) \<and> (p, BooleanVar True) \<in> set vars \<longrightarrow>
               PStr p \<in> set (flatten vars ds))"
proof -
  have a: "analyze_import_path w ex p =
           \<lparr>info_path = p, info_type = Directory, info_contents = [], info_filename = None\<rparr>"
    using assms by (simp add: analyze_directory_path)
  have b: "import_vars (section_item (p, analyze_import_path w ex p) g) =
             AList.update p (BooleanVar False) (import_vars g)"
    unfolding a by (simp add: section_item_def Let_def)
  have c: "directory_selections (section_item (p, analyze_import_path w ex p) g) =
             directory_selections g"
    unfolding a by (simp add: section_item_def Let_def)
  have d: "distinct (map fst vars) \<and> (p, BooleanVar True) \<in> set vars \<longrightarrow>
               PStr p \<in> set (flatten vars ds)"
    using flatten_member [of vars p ds] by (intro impI) (elim conjE)
  show ?thesis
    apply (rule conjI, rule a)
    apply (rule conjI, rule b)
    apply (rule conjI, rule c)
    apply (rule conjI, simp add: flatten_single)
    apply (rule conjI, simp add: flatten_single)
    apply (rule d)
    done
qed

theorem empty_directory_selection_witness:
  "endswith ''boards/'' ''/'' \<and> fetch_directory_contents offline new_explorer ''boards/'' = []
   \<and> analyze_import_path offline new_explorer ''boards/'' =
        \<lparr>info_path = ''boards/'', info_type = Directory, info_contents = [], info_filename = None\<rparr>
   \<and> import_vars (section_item (''boards/'', analyze_import_path offline new_explorer ''boards/'') fresh_gui)
        = [(''boards/'', BooleanVar False)]
   \<and> distinct (map fst [(''base.yml'', BooleanVar False), (''boards/'', BooleanVar True)])
   \<and> (''boards/'', BooleanVar True) \<in> set [(''base.yml'', BooleanVar False), (''boards/'', BooleanVar True)]
   \<and> PStr ''boards/'' \<in> set (flatten [(''base.yml'', BooleanVar False), (''boards/'', BooleanVar True)] [])"
proof -
  have e: "endswith ''boards/'' ''/''"
    by (simp add: endswith_def)
  have f: "fetch_directory_contents offline new_explorer ''boards/'' = []"
    by (rule fetch_offline)
  note t = empty_directory_selection [OF e f, where g = fresh_gui and ds = "[]"
      and vars = "[(''base.yml'', BooleanVar False), (''boards/'', BooleanVar True)]"]
  have 1: "analyze_import_path offline new_explorer ''boards/'' =
        \<lparr>info_path = ''boards/'', info_type = Directory, info_contents = [], info_filename = None\<rparr>"
    by (rule t [THEN conjunct1])
  have 2: "import_vars (section_item (''boards/'', analyze_import_path offline new_explorer ''boards/'') fresh_gui)
        = [(''boards/'', BooleanVar False)]"
    using t [THEN conjunct2, THEN conjunct1] by (simp add: fresh_gui_def new_gui_def)
  have d: "distinct (map fst [(''base.yml'', BooleanVar False), (''boards/'', BooleanVar True)])"
    by simp
  have m: "(''boards/'', BooleanVar True) \<in> set [(''base.yml'', BooleanVar False), (''boards/'', BooleanVar True)]"
    by simp
  have 3: "PStr ''boards/'' \<in> set (flatten [(''base.yml'', BooleanVar False), (''boards/'', BooleanVar True)] [])"
    using t [THEN conjunct2, THEN conjunct2, THEN conjunct2, THEN conjunct2, THEN conjunct2]
      conjI [OF d m] by (rule mp)
  show ?thesis
    apply (rule conjI, rule e)
    apply (rule conjI, rule f)
    apply (rule conjI, rule 1)
    apply (rule conjI, rule 2)
    apply (rule conjI, rule d)
    apply (rule conjI, rule m)
    apply (rule 3)
    done
qed


section \<open>Order and defaults of the selections\<close>

lemma analyze_import_path_type: "info_type (analyze_import_path w ex p) \<noteq> Unknown"
  by (simp add: analyze_import_path_def Let_def)

lemma section_item_keys:
  "info_type (snd x) \<noteq> Unknown \<Longrightarrow>
     map fst (import_vars (section_item x g)) =
       (if info_path (snd x) \<in> set (map fst (import_vars g)) then map fst (import_vars g)
        else map fst (import_vars g) @ [info_path (snd x)])"
  by (cases "info_type (snd x)")
     (simp_all add: section_item_def create_directory_options_def Let_def AList.update_keys)

lemma populate_fold:
  "fold (\<lambda>(category, items) g'. if items \<noteq> [] then create_category_section g' items else g')
        cats g =
   fold section_item (concat (map snd cats)) g"
proof (induction cats arbitrary: g)
  case Nil
  show ?case by simp
next
  case (Cons c cats)
  obtain k items where c: "c = (k, items)" by (cases c)
  show ?case
    unfolding c by (simp add: Cons.IH create_category_section_def)
qed

lemma categorized_items:
  "concat (map snd (categorize st)) =
     concat (map (\<lambda>k. map (\<lambda>(q, i). (info_path i, i))
                          (filter (\<lambda>(q, i). category_of (info_path i) = k) st)) category_names)"
  by (simp add: categorize_eq o_def)

lemma categorized_paths:
  "map (\<lambda>x. info_path (snd x))
       (map (\<lambda>(q, i). (info_path i, i)) (filter (\<lambda>(q, i). category_of (info_path i) = k) st)) =
   filter (\<lambda>q. category_of q = k) (map (\<lambda>x. info_path (snd x)) st)"
  by (induction st) auto

lemma populate_imports_keys:
  assumes "list_all (\<lambda>x. info_type (snd x) \<noteq> Unknown) st"
  shows "map fst (import_vars (populate_imports g st)) =
           first_occurrences
             (concat (map (\<lambda>k. filter (\<lambda>q. category_of q = k) (map (\<lambda>x. info_path (snd x)) st))
                          category_names))"
proof -
  let ?items = "concat (map snd (categorize st))"
  let ?g0 = "g\<lparr>import_vars := [], directory_selections := []\<rparr>"
  have types: "info_type (snd x) \<noteq> Unknown" if "x \<in> set ?items" for x
    using that assms unfolding categorized_items by (auto simp: list_all_iff)
  have "map fst (import_vars (fold section_item ?items ?g0)) =
          map fst (import_vars ?g0) @
          first_occurrences (filter (\<lambda>k. k \<notin> set (map fst (import_vars ?g0)))
                                    (map (\<lambda>x. info_path (snd x)) ?items))"
    by (rule fold_keys [where K = "\<lambda>g. map fst (import_vars g)"]) (simp add: section_item_keys types)
  moreover have "map (\<lambda>x. info_path (snd x)) ?items =
      concat (map (\<lambda>k. filter (\<lambda>q. category_of q = k) (map (\<lambda>x. info_path (snd x)) st))
                  category_names)"
  proof -
    let ?h = "\<lambda>x. info_path (snd x)"
    let ?F = "\<lambda>k. map (\<lambda>(q, i). (info_path i, i))
                      (filter (\<lambda>(q, i). category_of (info_path i) = k) st)"
    have "map ?h (concat (map ?F category_names)) = concat (map (map ?h) (map ?F category_names))"
      by (rule map_concat)
    also have "\<dots> = concat (map (\<lambda>k. map ?h (?F k)) category_names)"
      by (simp only: map_map o_def)
    also have "\<dots> = concat (map (\<lambda>k. filter (\<lambda>q. category_of q = k) (map ?h st))
                                  category_names)"
      by (simp only: categorized_paths)
    finally show ?thesis
      by (simp only: categorized_items)
  qed
  ultimately show ?thesis
    by (simp add: populate_imports_def populate_fold)
qed

lemma analyzed_types:
  "list_all (\<lambda>x. info_type (snd x) \<noteq> Unknown) acc \<Longrightarrow>
     list_all (\<lambda>x. info_type (snd x) \<noteq> Unknown) (fold (analyze_step w ex) items acc)"
proof (induction items arbitrary: acc)
  case Nil
  then show ?case by simp
next
  case (Cons x xs)
  have "list_all (\<lambda>x. info_type (snd x) \<noteq> Unknown) (analyze_step w ex x acc)"
    using Cons.prems set_update_subset
    by (cases x) (auto simp: analyze_step_simps list_all_iff analyze_import_path_type
        dest!: set_update_subset [THEN subsetD])
  then show ?case
    using Cons.IH by simp
qed

lemma analyzed_values:
  "list_all (\<lambda>x. snd x = analyze_import_path w ex (fst x)) acc \<Longrightarrow>
     list_all (\<lambda>x. snd x = analyze_import_path w ex (fst x)) (fold (analyze_step w ex) items acc)"
proof (induction items arbitrary: acc)
  case Nil
  then show ?case by simp
next
  case (Cons x xs)
  have "list_all (\<lambda>x. snd x = analyze_import_path w ex (fst x)) (analyze_step w ex x acc)"
    using Cons.prems
    by (cases x) (auto simp: analyze_step_simps list_all_iff dest!: set_update_subset [THEN subsetD])
  then show ?case
    using Cons.IH by simp
qed

lemma alist_of_keys:
  "list_all (\<lambda>x. snd x = f (fst x)) al \<Longrightarrow> al = map (\<lambda>k. (k, f k)) (map fst al)"
  by (induction al) (auto simp: prod_eq_iff)

text \<open>
  Claim C5, amended: the analyzer's mapping holds the string entries of the
  self-import list in declaration order (each at its first occurrence), every entry
  with its classification. The selections are created category by category, in the
  order Base Files, Devices, Middleware, RTOS, Other, and in declaration order inside
  a category; the flat import list follows the order of the selections. So declaration
  order is kept among the entries of one category, and not across categories.
\<close>

theorem order_of_selections:
  assumes "ensure_manifest w ex = Inr ex1"
    and "self_import (manifest ex1) = Inr (PList xs)"
  shows "\<exists>st. analyze_imports w ex = Inr (ex1\<lparr>import_structure := st\<rparr>, st)
           \<and> st = map (\<lambda>s. (s, analyze_import_path w ex1 s))
                      (first_occurrences (string_entries xs))
           \<and> map fst (import_vars (populate_imports g st)) =
               first_occurrences
                 (concat (map (\<lambda>k. filter (\<lambda>q. category_of q = k)
                                          (map (\<lambda>x. info_path (snd x)) st))
                              category_names))
           \<and> (\<forall>vars ds. distinct (map fst vars) \<longrightarrow>
                 flatten vars ds = concat (map (\<lambda>pv. flatten [pv] ds) vars))"
proof -
  let ?st = "fold (analyze_step w ex1) xs []"
  have a: "analyze_imports w ex = Inr (ex1\<lparr>import_structure := ?st\<rparr>, ?st)"
    using assms by (rule analyze_imports_eq)
  have k: "map fst ?st = first_occurrences (string_entries xs)"
    using analyze_step_keys [of w ex1 xs "[]"] by simp
  have "list_all (\<lambda>x. snd x = analyze_import_path w ex1 (fst x)) ?st"
    by (rule analyzed_values) simp
  then have "?st = map (\<lambda>s. (s, analyze_import_path w ex1 s)) (map fst ?st)"
    by (rule alist_of_keys)
  then have v: "?st = map (\<lambda>s. (s, analyze_import_path w ex1 s))
                        (first_occurrences (string_entries xs))"
    by (simp only: k)
  have t: "list_all (\<lambda>x. info_type (snd x) \<noteq> Unknown) ?st"
    by (rule analyzed_types) simp
  have p: "map fst (import_vars (populate_imports g ?st)) =
               first_occurrences
                 (concat (map (\<lambda>k. filter (\<lambda>q. category_of q = k)
                                          (map (\<lambda>x. info_path (snd x)) ?st))
                              category_names))"
    using t by (rule populate_imports_keys)
  have f: "\<forall>vars ds. distinct (map fst vars) \<longrightarrow>
                 flatten vars ds = concat (map (\<lambda>pv. flatten [pv] ds) vars)"
    by (intro allI impI) (rule flatten_concat)
  show ?thesis
    apply (rule exI [of _ ?st])
    apply (rule conjI, rule a)
    apply (rule conjI, rule v)
    apply (rule conjI, rule p)
    apply (rule f)
    done
qed

lemma analyze_yml:
  "endswith p ''.yml'' \<Longrightarrow>
     analyze_import_path w ex p =
       \<lparr>info_path = p, info_type = File, info_contents = [], info_filename = Some (path_name p)\<rparr>"
  by (simp add: analyze_import_path_def)

lemma yml_names:
  "endswith ''rtos.yml'' ''.yml''" "endswith ''base.yml'' ''.yml''"
  "path_name ''rtos.yml'' = ''rtos.yml''" "path_name ''base.yml'' = ''base.yml''"
  by (simp_all add: endswith_def path_name_def path_parts_def)

lemma yml_categories:
  "category_of ''rtos.yml'' = ''RTOS''" "category_of ''base.yml'' = ''Base Files''"
  "category_of ''devices/'' = ''Devices''"
  by (simp_all add: category_of_def startswith_def)

lemma yml_defaults: "guess_default ''rtos.yml''" "guess_default ''base.yml''"
  "\<not> guess_default ''devices/''"
  by (simp_all add: guess_default_def startswith_def endswith_def)

lemma reversed_loaded:
  "ensure_manifest w reversed_explorer = Inr reversed_explorer"
  "self_import (manifest reversed_explorer) = Inr (PList reversed_imports)"
  by (simp_all add: ensure_manifest_def reversed_explorer_def self_import_def)

lemma reversed_analyzed:
  "fold (analyze_step w ex) reversed_imports [] = reversed_structure"
  by (simp add: reversed_imports_def reversed_structure_def analyze_step_simps
      analyze_yml yml_names)

lemma reversed_populated:
  "import_vars (populate_imports g reversed_structure) =
     [(''base.yml'', BooleanVar True), (''rtos.yml'', BooleanVar True)]"
  by (simp add: populate_imports_def categorize_eq category_names_def reversed_structure_def
      yml_categories create_category_section_def section_item_def yml_defaults)

text \<open>
  Claim C5 says that the declaration order of the included file entries reaches the
  final import list. For a manifest that declares \<open>rtos.yml\<close> before \<open>base.yml\<close>
  the analyzer keeps that order, but presenting the entries puts \<open>base.yml\<close> (Base
  Files) before \<open>rtos.yml\<close> (RTOS), both included by default, and the import list
  is \<open>base.yml\<close>, \<open>rtos.yml\<close>.
\<close>

theorem declared_order_not_kept:
  "analyze_imports offline reversed_explorer =
     Inr (reversed_explorer\<lparr>import_structure := reversed_structure\<rparr>, reversed_structure)
   \<and> map fst reversed_structure = [''rtos.yml'', ''base.yml'']
   \<and> import_vars (populate_imports fresh_gui reversed_structure) =
       [(''base.yml'', BooleanVar True), (''rtos.yml'', BooleanVar True)]
   \<and> flatten (import_vars (populate_imports fresh_gui reversed_structure))
              (directory_selections (populate_imports fresh_gui reversed_structure)) =
       [PStr ''base.yml'', PStr ''rtos.yml'']"
proof -
  have a: "analyze_imports offline reversed_explorer =
     Inr (reversed_explorer\<lparr>import_structure := reversed_structure\<rparr>, reversed_structure)"
    using analyze_imports_eq [OF reversed_loaded] by (simp add: reversed_analyzed)
  have k: "map fst reversed_structure = [''rtos.yml'', ''base.yml'']"
    by (simp add: reversed_structure_def)
  have f: "flatten (import_vars (populate_imports fresh_gui reversed_structure))
              (directory_selections (populate_imports fresh_gui reversed_structure)) =
       [PStr ''base.yml'', PStr ''rtos.yml'']"
    unfolding reversed_populated by (simp add: flatten_def config_import_def add_import_def)
  show ?thesis
    apply (rule conjI, rule a)
    apply (rule conjI, rule k)
    apply (rule conjI, rule reversed_populated)
    apply (rule f)
    done
qed

theorem order_of_selections_witness:
  "ensure_manifest offline reversed_explorer = Inr reversed_explorer
   \<and> self_import (manifest reversed_explorer) = Inr (PList reversed_imports)
   \<and> (\<exists>st. analyze_imports offline reversed_explorer =
               Inr (reversed_explorer\<lparr>import_structure := st\<rparr>, st)
          \<and> map fst st = [''rtos.yml'', ''base.yml'']
          \<and> map fst (import_vars (populate_imports fresh_gui st)) = [''base.yml'', ''rtos.yml''])"
proof -
  have a: "ensure_manifest offline reversed_explorer = Inr reversed_explorer"
    by (rule reversed_loaded)
  have b: "self_import (manifest reversed_explorer) = Inr (PList reversed_imports)"
    by (rule reversed_loaded)
  have ks: "first_occurrences (string_entries reversed_imports) = [''rtos.yml'', ''base.yml'']"
    by (simp add: reversed_imports_def first_occurrences_def)
  obtain st where 1: "analyze_imports offline reversed_explorer =
               Inr (reversed_explorer\<lparr>import_structure := st\<rparr>, st)"
    and 2: "st = map (\<lambda>s. (s, analyze_import_path offline reversed_explorer s))
                     (first_occurrences (string_entries reversed_imports))"
    and 3: "map fst (import_vars (populate_imports fresh_gui st)) =
               first_occurrences
                 (concat (map (\<lambda>k. filter (\<lambda>q. category_of q = k)
                                          (map (\<lambda>x. info_path (snd x)) st))
                              category_names))"
    using order_of_selections [OF a b, where g = fresh_gui] by (elim exE conjE)
  have st: "st = reversed_structure"
    unfolding 2 ks by (simp add: reversed_structure_def analyze_yml yml_names)
  have 4: "map fst st = [''rtos.yml'', ''base.yml'']"
    unfolding st by (simp add: reversed_structure_def)
  have 5: "map fst (import_vars (populate_imports fresh_gui st)) = [''base.yml'', ''rtos.yml'']"
    unfolding 3 unfolding st
    by (simp add: reversed_structure_def category_names_def yml_categories first_occurrences_def)
  show ?thesis
    apply (rule conjI, rule a)
    apply (rule conjI, rule b)
    apply (rule exI [of _ st])
    apply (rule conjI, rule 1)
    apply (rule conjI, rule 4)
    apply (rule 5)
    done
qed

text \<open>
  Claim C3 on the directory \<open>devices/\<close> with a listing of two files: the claim gives
  it the default mode \<open>none\<close>, and \<open>_guess_default\<close> is false for its path, but
  \<open>create_directory_options\<close> does not call \<open>_guess_default\<close> and starts every
  directory with contents in mode \<open>all\<close>. The import list of the defaults then holds
  \<open>devices/\<close>.
\<close>

theorem directory_defaults_to_all:
  "analyze_import_path devices_world new_explorer ''devices/'' = devices_entry
   \<and> import_vars (populate_imports fresh_gui [(''devices/'', devices_entry)]) =
       [(''devices/'', StringVar ''all'')]
   \<and> guess_default ''devices/'' = False
   \<and> flatten (import_vars (populate_imports fresh_gui [(''devices/'', devices_entry)]))
              (directory_selections (populate_imports fresh_gui [(''devices/'', devices_entry)])) =
       [PStr ''devices/'']"
proof -
  have e: "endswith ''devices/'' ''/''"
    by (simp add: endswith_def)
  have a: "analyze_import_path devices_world new_explorer ''devices/'' = devices_entry"
    by (simp add: analyze_directory_path [OF e] fetch_devices_world devices_entry_def)
  have v: "import_vars (populate_imports fresh_gui [(''devices/'', devices_entry)]) =
       [(''devices/'', StringVar ''all'')]"
    by (simp add: populate_imports_def categorize_eq category_names_def devices_entry_def
      yml_categories create_category_section_def section_item_def create_directory_options_def
      Let_def)
  have g: "guess_default ''devices/'' = False"
    by (simp add: yml_defaults)
  have f: "flatten (import_vars (populate_imports fresh_gui [(''devices/'', devices_entry)]))
              (directory_selections (populate_imports fresh_gui [(''devices/'', devices_entry)])) =
       [PStr ''devices/'']"
    unfolding v by (rule flatten_single)
  show ?thesis
    apply (rule conjI, rule a)
    apply (rule conjI, rule v)
    apply (rule conjI, rule g)
    apply (rule f)
    done
qed

end
